theory Spec2Isabelle
  imports Main "HOL-Library.Word"
begin

unbundle bit_operations_syntax

section \<open>Data model of \<^verbatim>\<open>tools/libxc/xc_cpuid_x86.c\<close>\<close>

type_synonym u32 = "32 word"
type_synonym u64 = "64 word"
type_synonym domid_t = "16 word"

text \<open>
  \<^verbatim>\<open>unsigned int regs[4]\<close>: index 0 is eax, 1 is ebx, 2 is ecx, 3 is edx (the layout
  \<^verbatim>\<open>cpuid()\<close> and \<^verbatim>\<open>xc_cpuid_do_domctl()\<close> use).
\<close>

record cpuid_regs =
  eax :: u32
  ebx :: u32
  ecx :: u32
  edx :: u32

definition zero_regs :: cpuid_regs where
  "zero_regs = \<lparr>eax = 0, ebx = 0, ecx = 0, edx = 0\<rparr>"

text \<open>\<^verbatim>\<open>regs[i]\<close> read and written through a loop index, as the directive loops do.\<close>

definition reg_get :: "nat \<Rightarrow> cpuid_regs \<Rightarrow> u32" where
  "reg_get i r = (if i = 0 then eax r else if i = 1 then ebx r else if i = 2 then ecx r else edx r)"

definition reg_set :: "nat \<Rightarrow> u32 \<Rightarrow> cpuid_regs \<Rightarrow> cpuid_regs" where
  "reg_set i v r =
     (if i = 0 then r\<lparr>eax := v\<rparr> else if i = 1 then r\<lparr>ebx := v\<rparr>
      else if i = 2 then r\<lparr>ecx := v\<rparr> else r\<lparr>edx := v\<rparr>)"

text \<open>\<^verbatim>\<open>unsigned int input[2]\<close>: the leaf (eax input) and the sub-leaf (ecx input).\<close>

type_synonym cpuid_input = "u32 \<times> u32"

text \<open>
  Modelled from the spec: \<^verbatim>\<open>XEN_CPUID_INPUT_UNUSED\<close>, the "unused" sub-input of a
  CpuidLeaf, is declared in a public header that is not among the sources. Its value is
  the all-ones word, which the source itself writes as \<^verbatim>\<open>~0U\<close> where it probes leaf 0
  with no sub-input.
\<close>

definition XEN_CPUID_INPUT_UNUSED :: u32 where
  "XEN_CPUID_INPUT_UNUSED = 0xFFFFFFFF"

definition DEF_MAX_BASE :: u32 where "DEF_MAX_BASE = 0x0000000d"
definition DEF_MAX_INTELEXT :: u32 where "DEF_MAX_INTELEXT = 0x80000008"
definition DEF_MAX_AMDEXT :: u32 where "DEF_MAX_AMDEXT = 0x8000001c"

text \<open>
  The enum \<^verbatim>\<open>X86_FEATURE_*\<close> is generated from \<^verbatim>\<open>xen/arch-x86/cpufeatureset.h\<close>,
  which is not among the sources, so the value of each name is a parameter \<open>fv\<close> of the
  policy functions below: \<open>fv ''PAE''\<close> stands for \<^verbatim>\<open>X86_FEATURE_PAE\<close>.
\<close>

type_synonym feature_values = "string \<Rightarrow> u32"

text \<open>\<^verbatim>\<open>#define bitmaskof(idx) (1u << ((idx) & 31))\<close> and the two macros built on it.\<close>

definition bitmaskof :: "u32 \<Rightarrow> u32" where
  "bitmaskof idx = push_bit (unat (idx AND 31)) 1"

definition clear_bit :: "u32 \<Rightarrow> u32 \<Rightarrow> u32" where
  "clear_bit idx dst = dst AND NOT (bitmaskof idx)"

definition set_bit_u32 :: "u32 \<Rightarrow> u32 \<Rightarrow> u32" where
  "set_bit_u32 idx dst = dst OR bitmaskof idx"

text \<open>
  \<^verbatim>\<open>bitmaskof(X86_FEATURE_A) | bitmaskof(X86_FEATURE_B) | ...\<close>, the shape of every
  whitelist in the file, and a run of \<^verbatim>\<open>clear_bit(X86_FEATURE_A, dst);\<close> statements.
\<close>

definition featmask :: "feature_values \<Rightarrow> string list \<Rightarrow> u32" where
  "featmask fv fs = foldr (\<lambda>f m. bitmaskof (fv f) OR m) fs 0"

definition clear_bits :: "feature_values \<Rightarrow> string list \<Rightarrow> u32 \<Rightarrow> u32" where
  "clear_bits fv fs dst = foldl (\<lambda>d f. clear_bit (fv f) d) dst fs"

datatype cpu_vendor = VENDOR_UNKNOWN | VENDOR_INTEL | VENDOR_AMD

record cpuid_domain_info =
  vendor :: cpu_vendor
  hvm :: bool
  pvh :: bool
  xfeature_mask :: u64
  featureset :: "u32 list"
  nr_features :: nat
  pv64 :: bool
  pae :: bool
  nestedhvm :: bool

text \<open>
  The CPUID instruction of the machine the library runs on: eax and ecx in, four
  registers out. \<^verbatim>\<open>cpuid()\<close> replaces the unused sub-input by 0 before executing it.
\<close>

type_synonym cpuid_insn = "u32 \<Rightarrow> u32 \<Rightarrow> cpuid_regs"

definition cpuid :: "cpuid_insn \<Rightarrow> cpuid_input \<Rightarrow> cpuid_regs" where
  "cpuid hw input =
     (let count = (if snd input = XEN_CPUID_INPUT_UNUSED then 0 else snd input)
      in hw (fst input) count)"

section \<open>Policy engine\<close>

definition amd_xc_cpuid_policy ::
  "feature_values \<Rightarrow> cpuid_domain_info \<Rightarrow> cpuid_input \<Rightarrow> cpuid_regs \<Rightarrow> cpuid_regs" where
  "amd_xc_cpuid_policy fv info input regs =
     (if fst input = 0x00000002 \<or> fst input = 0x00000004 then
        regs\<lparr>eax := 0, ebx := 0, ecx := 0\<rparr>
      else if fst input = 0x80000000 then
        (if eax regs > DEF_MAX_AMDEXT then regs\<lparr>eax := DEF_MAX_AMDEXT\<rparr> else regs)
      else if fst input = 0x80000001 then
        (let r1 = (if \<not> pae info then regs\<lparr>edx := clear_bit (fv ''PAE'') (edx regs)\<rparr>
                   else regs)
         in r1\<lparr>ecx := ecx r1 AND
                   (featmask fv [''LAHF_LM'', ''CMP_LEGACY''] OR
                    (if nestedhvm info then bitmaskof (fv ''SVM'') else 0) OR
                    featmask fv [''CR8_LEGACY'', ''ABM'', ''SSE4A'',
                      ''MISALIGNSSE'', ''3DNOWPREFETCH'', ''OSVW'',
                      ''XOP'', ''LWP'', ''FMA4'', ''TBM'',
                      ''DBEXT'']),
               edx := edx r1 AND
                   (0x0183f3ff OR
                    featmask fv [''NX'', ''LM'', ''PAGE1GB'',
                      ''SYSCALL'', ''MMXEXT'', ''FFXSR'',
                      ''3DNOW'', ''3DNOWEXT''])\<rparr>)
      else if fst input = 0x80000008 then
        regs\<lparr>ecx := ((ecx regs AND 0xf000) + 1) OR push_bit 1 (ecx regs AND 0xff) OR 1\<rparr>
      else if fst input = 0x8000000a then
        (if \<not> nestedhvm info then regs\<lparr>eax := 0, ebx := 0, ecx := 0, edx := 0\<rparr>
         else regs\<lparr>edx := (edx regs AND (0x00000001 OR 0x00000002 OR 0x00000008 OR
                                            0x00000400 OR 0x00000080))
                           OR (0x00000020 OR 0x00000010)\<rparr>)
      else regs)"

definition intel_xc_cpuid_policy ::
  "feature_values \<Rightarrow> cpuid_domain_info \<Rightarrow> cpuid_input \<Rightarrow> cpuid_regs \<Rightarrow> cpuid_regs" where
  "intel_xc_cpuid_policy fv info input regs =
     (if fst input = 0x00000001 then
        (if nestedhvm info then regs\<lparr>ecx := set_bit_u32 (fv ''VMX'') (ecx regs)\<rparr>
         else regs)
      else if fst input = 0x00000004 then
        regs\<lparr>eax := push_bit 1 (eax regs AND 0x7c000000) OR 0x04000000 OR (eax regs AND 0x3ff),
             edx := edx regs AND 0x3ff\<rparr>
      else if fst input = 0x80000000 then
        (if eax regs > DEF_MAX_INTELEXT then regs\<lparr>eax := DEF_MAX_INTELEXT\<rparr> else regs)
      else if fst input = 0x80000001 then
        regs\<lparr>ecx := ecx regs AND
                  featmask fv [''LAHF_LM'', ''3DNOWPREFETCH'', ''ABM''],
             edx := edx regs AND
                  featmask fv [''NX'', ''LM'', ''PAGE1GB'',
                    ''SYSCALL'', ''RDTSCP'']\<rparr>
      else if fst input = 0x80000005 then
        regs\<lparr>eax := 0, ebx := 0, ecx := 0\<rparr>
      else if fst input = 0x80000008 then
        regs\<lparr>ecx := 0\<rparr>
      else regs)"

text \<open>
  The loop of sub-leaf 0 of leaf \<^verbatim>\<open>0xd\<close>: the largest \<^verbatim>\<open>eax + ebx\<close> (an unsigned 32-bit
  sum) the hardware reports over sub-leaves \<open>i\<close> to 63, starting from \<open>acc\<close>.
\<close>

function xsave_max_size :: "cpuid_insn \<Rightarrow> nat \<Rightarrow> u32 \<Rightarrow> u32" where
  "xsave_max_size hw i acc =
     (if i < 64 then
        (let r = cpuid hw (0xd, of_nat i)
         in xsave_max_size hw (Suc i) (if eax r + ebx r > acc then eax r + ebx r else acc))
      else acc)"
  by pat_completeness auto
termination
  by (relation "measure (\<lambda>(hw, i, acc). 64 - i)") auto

definition XSAVEOPT :: u32 where "XSAVEOPT = push_bit 0 1"
definition XSAVEC :: u32 where "XSAVEC = push_bit 1 1"
definition XGETBV1 :: u32 where "XGETBV1 = push_bit 2 1"
definition XSAVES :: u32 where "XSAVES = push_bit 3 1"

definition xc_cpuid_config_xsave ::
  "cpuid_insn \<Rightarrow> cpuid_domain_info \<Rightarrow> cpuid_input \<Rightarrow> cpuid_regs \<Rightarrow> cpuid_regs" where
  "xc_cpuid_config_xsave hw info input regs =
     (if xfeature_mask info = 0 then regs\<lparr>eax := 0, ebx := 0, ecx := 0, edx := 0\<rparr>
      else if snd input = 0 then
        regs\<lparr>eax := ucast (xfeature_mask info AND 0xFFFFFFFF),
             edx := ucast (drop_bit 32 (xfeature_mask info) AND 0xFFFFFFFF),
             ecx := xsave_max_size hw 2 0,
             ebx := 512 + 64\<rparr>
      else if snd input = 1 then
        (let r1 = regs\<lparr>eax := eax regs AND (XSAVEOPT OR XSAVEC OR XGETBV1 OR XSAVES)\<rparr>;
             r2 = (if \<not> hvm info then r1\<lparr>eax := eax r1 AND NOT XSAVES\<rparr> else r1)
         in r2\<lparr>ecx := ecx r2 AND ucast (xfeature_mask info), edx := 0\<rparr>)
      else if 2 \<le> snd input \<and> snd input \<le> 63 then
        (if xfeature_mask info AND push_bit (unat (snd input)) 1 = 0 then
           regs\<lparr>eax := 0, ebx := 0, ecx := 0, edx := 0\<rparr>
         else regs\<lparr>ecx := 0, edx := 0\<rparr>)
      else regs)"

text \<open>
  The case labels of the two guest-type tables. In \<^verbatim>\<open>xc_cpuid_hvm_policy\<close> the labels of
  \<open>hvm_rule_leaves\<close> have a case of their own (that of \<^verbatim>\<open>0x80000000\<close> only remarks
  that the vendor pass handles the leaf), those of \<open>hvm_passthrough_leaves\<close> share one
  bare \<^verbatim>\<open>break\<close>, and everything else reaches \<^verbatim>\<open>default\<close>. In \<^verbatim>\<open>xc_cpuid_pv_policy\<close> the
  labels of \<open>pv_rule_leaves\<close> carry a body and those of \<open>pv_zeroed_leaves\<close> share the
  statement that clears all four registers.
\<close>

definition hvm_rule_leaves :: "u32 set" where
  "hvm_rule_leaves =
     {0x00000000, 0x00000001, 0x00000007, 0x0000000d, 0x80000000, 0x80000001, 0x80000007,
      0x80000008}"

definition hvm_passthrough_leaves :: "u32 set" where
  "hvm_passthrough_leaves =
     {0x00000002, 0x00000004, 0x0000000a, 0x80000002, 0x80000003, 0x80000004, 0x80000005,
      0x80000006, 0x8000000a, 0x8000001c}"

definition pv_rule_leaves :: "u32 set" where
  "pv_rule_leaves = {0x00000001, 0x00000007, 0x0000000d, 0x80000001}"

definition pv_zeroed_leaves :: "u32 set" where
  "pv_zeroed_leaves =
     {0x00000005, 0x0000000a, 0x0000000b, 0x8000000a, 0x8000001b, 0x8000001c, 0x8000001e}"

text \<open>
  \<^verbatim>\<open>xc_cpuid_hvm_policy\<close>: the \<^verbatim>\<open>switch\<close> over the leaf, then the vendor pass that
  closes the function.
\<close>

definition hvm_leaf_switch ::
  "feature_values \<Rightarrow> cpuid_insn \<Rightarrow> cpuid_domain_info \<Rightarrow> cpuid_input \<Rightarrow> cpuid_regs \<Rightarrow> cpuid_regs" where
  "hvm_leaf_switch fv hw info input regs =
     (if fst input = 0x00000000 then
        (if eax regs > DEF_MAX_BASE then regs\<lparr>eax := DEF_MAX_BASE\<rparr> else regs)
      else if fst input = 0x00000001 then
        (let r1 = regs\<lparr>ebx := (ebx regs AND 0x0000ffff) OR push_bit 1 (ebx regs AND 0x007f0000)\<rparr>;
             r2 = r1\<lparr>ecx := ecx r1 AND
                     (featmask fv [''SSE3'', ''PCLMULQDQ'', ''SSSE3'', ''FMA'', ''CX16'', ''PCID'',
                        ''SSE4_1'', ''SSE4_2'', ''MOVBE'', ''POPCNT'', ''AESNI'', ''F16C'',
                        ''RDRAND''] OR
                      (if xfeature_mask info \<noteq> 0 then featmask fv [''AVX'', ''XSAVE''] else 0))\<rparr>;
             r3 = r2\<lparr>ecx := ecx r2 OR featmask fv [''HYPERVISOR'', ''TSC_DEADLINE'', ''X2APIC'']\<rparr>;
             r4 = r3\<lparr>edx := edx r3 AND
                     featmask fv [''FPU'', ''VME'', ''DE'', ''PSE'', ''TSC'', ''MSR'', ''PAE'',
                        ''MCE'', ''CX8'', ''APIC'', ''SEP'', ''MTRR'', ''PGE'', ''MCA'', ''CMOV'',
                        ''PAT'', ''CLFLUSH'', ''PSE36'', ''MMX'', ''FXSR'', ''SSE'', ''SSE2'',
                        ''HTT'']\<rparr>;
             r5 = r4\<lparr>edx := edx r4 OR bitmaskof (fv ''MTRR'')\<rparr>
         in if \<not> pae info then r5\<lparr>edx := clear_bits fv [''PAE'', ''PSE36''] (edx r5)\<rparr> else r5)
      else if fst input = 0x00000007 then
        (let r1 = (if snd input = 0 then
                     regs\<lparr>ebx := ebx regs AND
                            (featmask fv [''TSC_ADJUST'', ''BMI1'', ''HLE'', ''AVX2'', ''SMEP'',
                               ''BMI2'', ''ERMS'', ''INVPCID'', ''RTM''] OR
                             (if xfeature_mask info \<noteq> 0 then bitmaskof (fv ''MPX'') else 0) OR
                             featmask fv [''RDSEED'', ''ADX'', ''SMAP'', ''FSGSBASE'', ''PCOMMIT'',
                               ''CLWB'', ''CLFLUSHOPT'']),
                          ecx := ecx regs AND bitmaskof (fv ''PKU'')\<rparr>
                   else regs\<lparr>ebx := 0, ecx := 0\<rparr>)
         in r1\<lparr>eax := 0, edx := 0\<rparr>)
      else if fst input = 0x0000000d then
        xc_cpuid_config_xsave hw info input regs
      else if fst input = 0x80000000 then
        regs
      else if fst input = 0x80000001 then
        (if \<not> pae info then
           regs\<lparr>ecx := clear_bit (fv ''LAHF_LM'') (ecx regs),
                edx := clear_bits fv [''LM'', ''NX'', ''PSE36'', ''PAGE1GB''] (edx regs)\<rparr>
         else regs)
      else if fst input = 0x80000007 then
        regs\<lparr>eax := 0, ebx := 0, ecx := 0, edx := edx regs AND push_bit 8 1\<rparr>
      else if fst input = 0x80000008 then
        regs\<lparr>eax := eax regs AND 0x0000ffff, ebx := 0, edx := 0\<rparr>
      else if fst input \<in> hvm_passthrough_leaves then
        regs
      else regs\<lparr>eax := 0, ebx := 0, ecx := 0, edx := 0\<rparr>)"

definition xc_cpuid_hvm_policy ::
  "feature_values \<Rightarrow> cpuid_insn \<Rightarrow> cpuid_domain_info \<Rightarrow> cpuid_input \<Rightarrow> cpuid_regs \<Rightarrow> cpuid_regs" where
  "xc_cpuid_hvm_policy fv hw info input regs =
     (let r1 = hvm_leaf_switch fv hw info input regs
      in if vendor info = VENDOR_AMD then amd_xc_cpuid_policy fv info input r1
         else intel_xc_cpuid_policy fv info input r1)"

text \<open>
  \<^verbatim>\<open>xc_cpuid_pv_policy\<close>: the block shared by leaves 1 and \<^verbatim>\<open>0x80000001\<close>, then a
  \<^verbatim>\<open>switch\<close> that has no \<^verbatim>\<open>default\<close> label.
\<close>

definition xc_cpuid_pv_policy ::
  "feature_values \<Rightarrow> cpuid_insn \<Rightarrow> cpuid_domain_info \<Rightarrow> cpuid_input \<Rightarrow> cpuid_regs \<Rightarrow> cpuid_regs" where
  "xc_cpuid_pv_policy fv hw info input regs0 =
     (let regs =
        (if fst input AND 0x7fffffff = 0x00000001 then
           (let d1 = clear_bit (fv ''VME'') (edx regs0);
                d2 = (if \<not> pvh info then clear_bits fv [''PSE'', ''PGE''] d1 else d1)
            in regs0\<lparr>edx := clear_bits fv [''MCE'', ''MCA'', ''MTRR'', ''PSE36''] d2\<rparr>)
         else regs0)
      in
      if fst input = 0x00000001 then
        (let d1 = (if vendor info = VENDOR_AMD then clear_bit (fv ''SEP'') (edx regs) else edx regs);
             d2 = clear_bits fv [''DS'', ''TM1'', ''PBE''] d1;
             c1 = clear_bits fv [''DTES64'', ''MONITOR'', ''DSCPL'', ''VMX'', ''SMX'', ''EIST'',
                    ''TM2''] (ecx regs);
             c2 = (if \<not> pv64 info then clear_bit (fv ''CX16'') c1 else c1);
             c3 = (if xfeature_mask info = 0 then clear_bits fv [''XSAVE'', ''AVX''] c2 else c2);
             c4 = clear_bits fv [''XTPR'', ''PDCM'', ''PCID'', ''DCA''] c3
         in regs\<lparr>edx := d2, ecx := set_bit_u32 (fv ''HYPERVISOR'') c4\<rparr>)
      else if fst input = 0x00000007 then
        (let r1 = (if snd input = 0 then
                     (let b1 = ebx regs AND
                            featmask fv [''BMI1'', ''HLE'', ''AVX2'', ''BMI2'', ''ERMS'', ''RTM'',
                              ''RDSEED'', ''ADX'', ''FSGSBASE'']
                      in regs\<lparr>ebx := (if xfeature_mask info = 0 then clear_bit (fv ''MPX'') b1
                                        else b1)\<rparr>)
                   else regs\<lparr>ebx := 0\<rparr>)
         in r1\<lparr>eax := 0, ecx := 0, edx := 0\<rparr>)
      else if fst input = 0x0000000d then
        xc_cpuid_config_xsave hw info input regs
      else if fst input = 0x80000001 then
        (let d1 = (if \<not> pv64 info then
                     (let d = clear_bit (fv ''LM'') (edx regs)
                      in if vendor info \<noteq> VENDOR_AMD then clear_bit (fv ''SYSCALL'') d else d)
                   else set_bit_u32 (fv ''SYSCALL'') (edx regs));
             c1 = (if \<not> pv64 info then clear_bit (fv ''LAHF_LM'') (ecx regs) else ecx regs);
             d2 = (if \<not> pvh info then clear_bit (fv ''PAGE1GB'') d1 else d1);
             d3 = clear_bit (fv ''RDTSCP'') d2
         in regs\<lparr>edx := d3,
                 ecx := clear_bits fv [''SVM'', ''OSVW'', ''IBS'', ''SKINIT'', ''WDT'', ''LWP'',
                          ''NODEID_MSR'', ''TOPOEXT''] c1\<rparr>)
      else if fst input \<in> pv_zeroed_leaves then
        regs\<lparr>eax := 0, ebx := 0, ecx := 0, edx := 0\<rparr>
      else regs)"

text \<open>\<^verbatim>\<open>xc_cpuid_policy\<close>; its return value is always 0 and is left out.\<close>

definition xc_cpuid_policy ::
  "feature_values \<Rightarrow> cpuid_insn \<Rightarrow> cpuid_domain_info \<Rightarrow> cpuid_input \<Rightarrow> cpuid_regs \<Rightarrow> cpuid_regs" where
  "xc_cpuid_policy fv hw info input regs =
     (if fst input AND 0xffff0000 = 0x40000000 then
        regs\<lparr>eax := 0, ebx := 0, ecx := 0, edx := 0\<rparr>
      else if hvm info then xc_cpuid_hvm_policy fv hw info input regs
      else xc_cpuid_pv_policy fv hw info input regs)"

section \<open>External interface\<close>

text \<open>
  Return codes. The source returns 0 for success (\<open>None\<close> below), the negated errno
  constant it names, or, verbatim, the nonzero code of the upstream call that failed.
\<close>

datatype error = ESRCH | ENOMEM | EOPNOTSUPP | EPERM | EINVAL | ExternalFailure int

record xc_dominfo =
  di_domid :: domid_t
  di_hvm :: bool
  di_pvh :: bool

datatype hvm_param = HVM_PARAM_PAE_ENABLED | HVM_PARAM_NESTEDHVM

datatype featureset_index = XEN_SYSCTL_cpu_featureset_hvm | XEN_SYSCTL_cpu_featureset_pv

text \<open>
  Everything the file reaches outside itself: the CPUID instruction, the calls into the
  hypervisor with the code each returns and the value it hands back, and the allocator.
  \<open>xc_get_cpu_featureset\<close> answers with its return code and the contents it leaves in
  the caller's buffer; \<open>alloc_str_ok i\<close> says whether the allocation of the output string
  of register \<open>i\<close> succeeds.
\<close>

record env =
  hw_cpuid :: cpuid_insn
  xc_domain_getinfo :: "domid_t \<Rightarrow> int \<times> xc_dominfo"
  calloc_ok :: bool
  do_getvcpuextstate :: "domid_t \<Rightarrow> int \<times> u64"
  xc_hvm_param_get :: "domid_t \<Rightarrow> hvm_param \<Rightarrow> int \<times> u64"
  xc_get_cpu_featureset :: "featureset_index \<Rightarrow> nat \<Rightarrow> int \<times> u32 list"
  xc_domain_get_guest_width :: "domid_t \<Rightarrow> int \<times> u32"
  do_set_cpuid :: "domid_t \<Rightarrow> cpuid_input \<Rightarrow> cpuid_regs \<Rightarrow> int"
  alloc_str_ok :: "nat \<Rightarrow> bool"

section \<open>Domain context resolver\<close>

text \<open>
  The loop under the comment \<^verbatim>\<open>Check for truncated set bits\<close>: it runs \<open>i\<close> from
  \<^verbatim>\<open>nr_features\<close> up to \<^verbatim>\<open>host_nr_features\<close> and reports whether it met a nonzero
  \<^verbatim>\<open>featureset[i]\<close>. The caller's array is a pointer, modelled as the memory it points
  into: the array proper is the indices below \<^verbatim>\<open>nr_features\<close>.
\<close>

function truncated_bits_set :: "(nat \<Rightarrow> u32) \<Rightarrow> nat \<Rightarrow> nat \<Rightarrow> bool" where
  "truncated_bits_set fs i host_nr_features =
     (if i < host_nr_features then
        (if fs i \<noteq> 0 then True
         else truncated_bits_set fs (Suc i) host_nr_features)
      else False)"
  by pat_completeness auto
termination
  by (relation "measure (\<lambda>(fs, i, host_nr_features). host_nr_features - i)") auto

text \<open>
  \<^verbatim>\<open>get_cpuid_domain_info\<close>. \<^verbatim>\<open>FEATURESET_NR_ENTRIES\<close> comes from a generated header that
  is not among the sources and is a parameter; \<open>fset\<close> and \<open>nr_fset\<close> are the arguments
  \<^verbatim>\<open>featureset\<close> and \<^verbatim>\<open>nr_features\<close>. On failure the callers only release the context, so
  the model returns the error alone.
\<close>

definition get_cpuid_domain_info ::
  "nat \<Rightarrow> env \<Rightarrow> domid_t \<Rightarrow> (nat \<Rightarrow> u32) option \<Rightarrow> nat \<Rightarrow> error + cpuid_domain_info" where
  "get_cpuid_domain_info FEATURESET_NR_ENTRIES e domid fset nr_fset =
     (let host_nr_features = FEATURESET_NR_ENTRIES;
          regs = cpuid (hw_cpuid e) (0, NOT 0);
          v = (if ebx regs = 0x756e6547 \<and> ecx regs = 0x6c65746e \<and> edx regs = 0x49656e69
               then VENDOR_INTEL
               else if ebx regs = 0x68747541 \<and> ecx regs = 0x444d4163 \<and> edx regs = 0x69746e65
               then VENDOR_AMD
               else VENDOR_UNKNOWN);
          (n, di) = xc_domain_getinfo e domid
      in if n \<noteq> 1 \<or> di_domid di \<noteq> domid then Inl ESRCH
         else if \<not> calloc_ok e then Inl ENOMEM
         else
           (let fs0 = (case fset of
                         None \<Rightarrow> replicate host_nr_features 0
                       | Some f \<Rightarrow> map f [0..<min host_nr_features nr_fset] @
                                   replicate (host_nr_features - min host_nr_features nr_fset) 0)
            in if fset \<noteq> None \<and>
                  truncated_bits_set (the fset) nr_fset host_nr_features
               then Inl EOPNOTSUPP
               else
                 (let (rc, mask) = do_getvcpuextstate e domid
                  in if rc \<noteq> 0 then Inl (ExternalFailure rc)
                     else
                       (let info0 = \<lparr>vendor = v, hvm = di_hvm di, pvh = di_pvh di,
                                      xfeature_mask = mask, featureset = fs0,
                                      nr_features = host_nr_features, pv64 = False, pae = False,
                                      nestedhvm = False\<rparr>
                        in if di_hvm di then
                             (let (rc1, val1) = xc_hvm_param_get e domid HVM_PARAM_PAE_ENABLED
                              in if rc1 \<noteq> 0 then Inl (ExternalFailure rc1)
                                 else
                                   (let (rc2, val2) = xc_hvm_param_get e domid HVM_PARAM_NESTEDHVM
                                    in if rc2 \<noteq> 0 then Inl (ExternalFailure rc2)
                                       else
                                         (let info1 = info0\<lparr>pae := (val1 \<noteq> 0),
                                                               nestedhvm := (val2 \<noteq> 0)\<rparr>
                                          in if fset = None then
                                               (let (rc3, fs) = xc_get_cpu_featureset e
                                                      XEN_SYSCTL_cpu_featureset_hvm host_nr_features
                                                in if rc3 \<noteq> 0 then Inl (ExternalFailure rc3)
                                                   else Inr (info1\<lparr>featureset := fs\<rparr>))
                                             else Inr info1)))
                           else
                             (let (rc1, width) = xc_domain_get_guest_width e domid
                              in if rc1 \<noteq> 0 then Inl (ExternalFailure rc1)
                                 else
                                   (let info1 = info0\<lparr>pv64 := (width = 8)\<rparr>
                                    in if fset = None then
                                         (let (rc3, fs) = xc_get_cpu_featureset e
                                                XEN_SYSCTL_cpu_featureset_pv host_nr_features
                                          in if rc3 \<noteq> 0 then Inl (ExternalFailure rc3)
                                             else Inr (info1\<lparr>featureset := fs\<rparr>))
                                       else Inr info1))))))"

section \<open>Override directive compiler\<close>

text \<open>
  A directive is a C string. \<^verbatim>\<open>config[i][j]\<close> is its \<open>j\<close>-th character, or the
  terminating NUL at its end; the model also reads NUL at any index past the terminator,
  where the source would read outside the string.
\<close>

definition config_char :: "string \<Rightarrow> nat \<Rightarrow> char" where
  "config_char s j = (if j < length s then s ! j else CHR 0x00)"

text \<open>
  \<^verbatim>\<open>strchr(s, c) != NULL\<close>: the C function finds \<open>c\<close> among the characters of \<open>s\<close>, and
  it also finds the terminating NUL of \<open>s\<close> when \<open>c\<close> is NUL.
\<close>

definition strchr :: "string \<Rightarrow> char \<Rightarrow> bool" where
  "strchr s c \<longleftrightarrow> c \<in> set s \<or> c = CHR 0x00"

text \<open>\<^verbatim>\<open>alloc_str\<close> on success: 33 bytes, all NUL.\<close>

definition alloc_str :: string where
  "alloc_str = replicate 33 (CHR 0x00)"

text \<open>\<^verbatim>\<open>!!(reg & (1U << (31 - j)))\<close> and \<^verbatim>\<open>'0' + val\<close> for \<open>val\<close> 0 or 1.\<close>

definition bit_at :: "u32 \<Rightarrow> nat \<Rightarrow> bool" where
  "bit_at reg j \<longleftrightarrow> reg AND push_bit (31 - j) 1 \<noteq> 0"

definition val_char :: "bool \<Rightarrow> char" where
  "val_char val = (if val then CHR ''1'' else CHR ''0'')"

text \<open>
  The \<^verbatim>\<open>fail\<close> blocks of both entry points: release and null all four outputs.
\<close>

definition free_config_transformed :: "(nat \<rightharpoonup> string) \<Rightarrow> (nat \<rightharpoonup> string)" where
  "free_config_transformed ct = ct(0 := None, 1 := None, 2 := None, 3 := None)"

subsection \<open>Check mode\<close>

text \<open>
  The inner loop of \<^verbatim>\<open>xc_cpuid_check\<close> from bit position \<open>j\<close> on, for one register: False
  with the buffer as far as it got when it takes \<^verbatim>\<open>goto fail\<close>, True with the finished
  buffer otherwise.
\<close>

function check_bits :: "u32 \<Rightarrow> string \<Rightarrow> nat \<Rightarrow> string \<Rightarrow> bool \<times> string" where
  "check_bits reg cfg j buf =
     (if j < 32 then
        (let val = bit_at reg j; c = config_char cfg j
         in if \<not> strchr ''10xs'' c \<or> (c = CHR ''1'' \<and> \<not> val) \<or> (c = CHR ''0'' \<and> val)
            then (False, buf)
            else check_bits reg cfg (Suc j)
                   (buf[j := (if c = CHR ''s'' then val_char val else c)]))
      else (True, buf))"
  by pat_completeness auto
termination
  by (relation "measure (\<lambda>(reg, cfg, j, buf). 32 - j)") auto

text \<open>The outer loop from register \<open>i\<close> on, up to the \<^verbatim>\<open>fail\<close> labels.\<close>

function check_regs ::
  "env \<Rightarrow> cpuid_regs \<Rightarrow> (nat \<rightharpoonup> string) \<Rightarrow> nat \<Rightarrow> (nat \<rightharpoonup> string)
     \<Rightarrow> error option \<times> (nat \<rightharpoonup> string)" where
  "check_regs e regs config i ct =
     (if i < 4 then
        (case config i of
           None \<Rightarrow> check_regs e regs config (Suc i) ct
         | Some cfg \<Rightarrow>
             if \<not> alloc_str_ok e i then (Some ENOMEM, ct)
             else
               (case check_bits (reg_get i regs) cfg 0 alloc_str of
                  (False, buf) \<Rightarrow> (Some EPERM, ct(i \<mapsto> buf))
                | (True, buf) \<Rightarrow> check_regs e regs config (Suc i) (ct(i \<mapsto> buf))))
      else (None, ct))"
  by pat_completeness auto
termination
  by (relation "measure (\<lambda>(e, regs, config, i, ct). 4 - i)") auto

text \<open>
  \<^verbatim>\<open>xc_cpuid_check\<close>: the return code and the four \<^verbatim>\<open>config_transformed\<close> pointers as the
  caller finds them.
\<close>

definition xc_cpuid_check ::
  "env \<Rightarrow> cpuid_input \<Rightarrow> (nat \<rightharpoonup> string) \<Rightarrow> error option \<times> (nat \<rightharpoonup> string)" where
  "xc_cpuid_check e input config =
     (let regs = cpuid (hw_cpuid e) input;
          (rc, ct) = check_regs e regs config 0 Map.empty
      in case rc of
           None \<Rightarrow> (None, ct)
         | Some err \<Rightarrow> (Some err, free_config_transformed ct))"

subsection \<open>Set mode\<close>

text \<open>
  The inner loop of \<^verbatim>\<open>xc_cpuid_set\<close> from bit position \<open>j\<close> on: \<open>reg\<close> is
  \<^verbatim>\<open>regs[i]\<close>, which the loop rewrites bit by bit, \<open>polreg\<close> is \<^verbatim>\<open>polregs[i]\<close>.
\<close>

function set_bits :: "u32 \<Rightarrow> string \<Rightarrow> nat \<Rightarrow> u32 \<Rightarrow> string \<Rightarrow> bool \<times> u32 \<times> string" where
  "set_bits polreg cfg j reg buf =
     (if j < 32 then
        (let val = bit_at reg j; polval = bit_at polreg j; c = config_char cfg j
         in if \<not> strchr ''10xks'' c then (False, reg, buf)
            else
              (let val' = (if c = CHR ''1'' then True
                           else if c = CHR ''0'' then False
                           else if c = CHR ''x'' then polval
                           else val);
                   reg' = (if val' then set_bit_u32 (of_nat (31 - j)) reg
                           else clear_bit (of_nat (31 - j)) reg)
               in set_bits polreg cfg (Suc j) reg'
                    (buf[j := (if c = CHR ''s'' then val_char val' else c)])))
      else (True, reg, buf))"
  by pat_completeness auto
termination
  by (relation "measure (\<lambda>(polreg, cfg, j, reg, buf). 32 - j)") auto

function set_regs ::
  "env \<Rightarrow> cpuid_regs \<Rightarrow> (nat \<rightharpoonup> string) \<Rightarrow> nat \<Rightarrow> cpuid_regs \<Rightarrow> (nat \<rightharpoonup> string)
     \<Rightarrow> error option \<times> cpuid_regs \<times> (nat \<rightharpoonup> string)" where
  "set_regs e polregs config i regs ct =
     (if i < 4 then
        (case config i of
           None \<Rightarrow> set_regs e polregs config (Suc i) (reg_set i (reg_get i polregs) regs) ct
         | Some cfg \<Rightarrow>
             if \<not> alloc_str_ok e i then (Some ENOMEM, regs, ct)
             else
               (case set_bits (reg_get i polregs) cfg 0 (reg_get i regs) alloc_str of
                  (False, reg, buf) \<Rightarrow> (Some EINVAL, reg_set i reg regs, ct(i \<mapsto> buf))
                | (True, reg, buf) \<Rightarrow>
                    set_regs e polregs config (Suc i) (reg_set i reg regs) (ct(i \<mapsto> buf))))
      else (None, regs, ct))"
  by pat_completeness auto
termination
  by (relation "measure (\<lambda>(e, polregs, config, i, regs, ct). 4 - i)") auto

definition xc_cpuid_do_domctl :: "env \<Rightarrow> domid_t \<Rightarrow> cpuid_input \<Rightarrow> cpuid_regs \<Rightarrow> int" where
  "xc_cpuid_do_domctl e domid input regs = do_set_cpuid e domid input regs"

text \<open>
  \<^verbatim>\<open>xc_cpuid_set\<close>: the return code, the four \<^verbatim>\<open>config_transformed\<close> pointers as the
  caller finds them, and the leaves handed to \<^verbatim>\<open>xc_cpuid_do_domctl\<close>.
\<close>

definition xc_cpuid_set ::
  "feature_values \<Rightarrow> nat \<Rightarrow> env \<Rightarrow> domid_t \<Rightarrow> cpuid_input \<Rightarrow> (nat \<rightharpoonup> string)
     \<Rightarrow> error option \<times> (nat \<rightharpoonup> string) \<times> (cpuid_input \<times> cpuid_regs) list" where
  "xc_cpuid_set fv FEATURESET_NR_ENTRIES e domid input config =
     (case get_cpuid_domain_info FEATURESET_NR_ENTRIES e domid None 0 of
        Inl err \<Rightarrow> (Some err, Map.empty, [])
      | Inr info \<Rightarrow>
          (let regs = cpuid (hw_cpuid e) input;
               polregs = xc_cpuid_policy fv (hw_cpuid e) info input regs;
               (rc, regs', ct) = set_regs e polregs config 0 regs Map.empty
           in case rc of
                Some err \<Rightarrow> (Some err, free_config_transformed ct, [])
              | None \<Rightarrow>
                  (let rc' = xc_cpuid_do_domctl e domid input regs'
                   in if rc' = 0 then (None, ct, [(input, regs')])
                      else (Some (ExternalFailure rc'), free_config_transformed ct,
                            [(input, regs')]))))"

section \<open>Traversal\<close>

text \<open>
  The tail of the loop body of \<^verbatim>\<open>xc_cpuid_apply_policy\<close>, after the leaf has been
  computed and committed: the next \<^verbatim>\<open>input\<close> to visit, or \<open>None\<close> where the loop takes
  its \<^verbatim>\<open>break\<close>. \<open>regs\<close> is the policy-filtered quadruple of the leaf just visited.
\<close>

definition next_input :: "u32 \<Rightarrow> u32 \<Rightarrow> cpuid_input \<Rightarrow> cpuid_regs \<Rightarrow> cpuid_input option" where
  "next_input base_max ext_max input regs =
     (let in1 = (if fst input = 4 then snd input + 1 else snd input)
      in if fst input = 4 \<and> eax regs AND 0x1f \<noteq> 0 then Some (fst input, in1)
         else if fst input = 0xd \<and> in1 < 63 then Some (fst input, in1 + 1)
         else
           (let in0 = fst input + 1;
                in0' = (if in0 AND 0x80000000 = 0 \<and> in0 > base_max then 0x80000000 else in0);
                in1' = (if in0' = 4 \<or> in0' = 7 \<or> in0' = 0xd then 0
                        else XEN_CPUID_INPUT_UNUSED)
            in if in0' AND 0x80000000 \<noteq> 0 \<and> in0' > ext_max then None
               else Some (in0', in1')))"

text \<open>
  The \<^verbatim>\<open>for ( ; ; )\<close> loop from \<open>input\<close> on. Nothing in the source bounds the number of
  sub-leaves of leaf 4, so the model counts iterations down from \<open>fuel\<close> and returns
  \<open>None\<close> when they run out. A result is the return code, the inputs visited in order,
  and the leaves handed to \<^verbatim>\<open>xc_cpuid_do_domctl\<close> in order.
\<close>

type_synonym traversal = "error option \<times> cpuid_input list \<times> (cpuid_input \<times> cpuid_regs) list"

fun apply_policy_loop ::
  "nat \<Rightarrow> feature_values \<Rightarrow> env \<Rightarrow> cpuid_domain_info \<Rightarrow> domid_t \<Rightarrow> u32 \<Rightarrow> u32 \<Rightarrow> cpuid_input
     \<Rightarrow> cpuid_input list \<Rightarrow> (cpuid_input \<times> cpuid_regs) list \<Rightarrow> traversal option" where
  "apply_policy_loop 0 fv e info domid base_max ext_max input visited calls = None"
| "apply_policy_loop (Suc fuel) fv e info domid base_max ext_max input visited calls =
     (let regs = xc_cpuid_policy fv (hw_cpuid e) info input (cpuid (hw_cpuid e) input);
          visited' = visited @ [input];
          nonzero = (eax regs \<noteq> 0 \<or> ebx regs \<noteq> 0 \<or> ecx regs \<noteq> 0 \<or> edx regs \<noteq> 0);
          rc = (if nonzero then xc_cpuid_do_domctl e domid input regs else 0);
          calls' = (if nonzero then calls @ [(input, regs)] else calls)
      in if rc \<noteq> 0 then Some (Some (ExternalFailure rc), visited', calls')
         else
           (case next_input base_max ext_max input regs of
              None \<Rightarrow> Some (None, visited', calls')
            | Some input' \<Rightarrow>
                apply_policy_loop fuel fv e info domid base_max ext_max input' visited' calls'))"

text \<open>
  The two ceilings \<^verbatim>\<open>base_max\<close> and \<^verbatim>\<open>ext_max\<close>, fetched from the hardware once and
  clamped to the constants of the file.
\<close>

definition base_max_of :: "env \<Rightarrow> u32" where
  "base_max_of e =
     (let regs = cpuid (hw_cpuid e) (0, 0)
      in if eax regs \<le> DEF_MAX_BASE then eax regs else DEF_MAX_BASE)"

definition ext_max_of :: "env \<Rightarrow> cpuid_domain_info \<Rightarrow> u32" where
  "ext_max_of e info =
     (let regs = cpuid (hw_cpuid e) (0x80000000, 0)
      in if vendor info = VENDOR_AMD
         then (if eax regs \<le> DEF_MAX_AMDEXT then eax regs else DEF_MAX_AMDEXT)
         else (if eax regs \<le> DEF_MAX_INTELEXT then eax regs else DEF_MAX_INTELEXT))"

text \<open>
  \<^verbatim>\<open>xc_cpuid_apply_policy\<close>: context resolution, the two ceilings, and the loop from leaf
  0 with the unused sub-input.
\<close>

definition xc_cpuid_apply_policy ::
  "nat \<Rightarrow> feature_values \<Rightarrow> nat \<Rightarrow> env \<Rightarrow> domid_t \<Rightarrow> (nat \<Rightarrow> u32) option \<Rightarrow> nat
     \<Rightarrow> traversal option" where
  "xc_cpuid_apply_policy fuel fv FEATURESET_NR_ENTRIES e domid fset nr_fset =
     (case get_cpuid_domain_info FEATURESET_NR_ENTRIES e domid fset nr_fset of
        Inl err \<Rightarrow> Some (Some err, [], [])
      | Inr info \<Rightarrow>
          apply_policy_loop fuel fv e info domid (base_max_of e) (ext_max_of e info)
            (0, XEN_CPUID_INPUT_UNUSED) [] [])"

text \<open>
  The sub-leaves of leaf 4 among the inputs visited, and a bound on the iterations the
  loop still makes from \<open>input\<close> when leaf 4 does not repeat: at most 29 extended leaves,
  64 sub-leaves of leaf \<^verbatim>\<open>0xd\<close>, and the basic leaves up to it.
\<close>

definition leaf4_visits :: "cpuid_input list \<Rightarrow> cpuid_input list" where
  "leaf4_visits visited = filter (\<lambda>input. fst input = 4) visited"

definition iterations_left :: "cpuid_input \<Rightarrow> nat" where
  "iterations_left input =
     (if 0x80000000 \<le> fst input then 0x8000001d - unat (fst input)
      else if fst input = 0xd then 30 + (64 - unat (snd input))
      else 95 + (13 - unat (fst input)))"

section \<open>Sample inputs\<close>

text \<open>
  Concrete inputs at which the results below are instantiated: a feature numbering (no
  result depends on which one), a domain context for each vendor and guest type, and a
  raw register quadruple.
\<close>

definition sample_fv :: feature_values where
  "sample_fv name = 0"

definition sample_info :: "cpu_vendor \<Rightarrow> bool \<Rightarrow> u64 \<Rightarrow> cpuid_domain_info" where
  "sample_info v h m =
     \<lparr>vendor = v, hvm = h, pvh = False, xfeature_mask = m, featureset = [0, 0],
      nr_features = 2, pv64 = \<not> h, pae = h, nestedhvm = False\<rparr>"

definition sample_raw :: cpuid_regs where
  "sample_raw = \<lparr>eax = 0x000000ff, ebx = 0x00000102, ecx = 0x00000203, edx = 0x00000304\<rparr>"

definition sample_hw :: cpuid_insn where
  "sample_hw leaf count = sample_raw"

text \<open>
  A machine that identifies as AuthenticAMD, reports 4 as its highest basic leaf and no
  extended leaves, and answers leaf 4 with a cache level at sub-leaf 0 only.
\<close>

definition sample_amd_hw :: cpuid_insn where
  "sample_amd_hw leaf count =
     (if leaf = 0 then \<lparr>eax = 4, ebx = 0x68747541, ecx = 0x444d4163, edx = 0x69746e65\<rparr>
      else if leaf = 4 \<and> count = 0 then \<lparr>eax = 0x00000121, ebx = 0, ecx = 0, edx = 0\<rparr>
      else zero_regs)"

text \<open>
  An environment in which every upstream call succeeds: the domain exists and is HVM
  (\<open>h\<close>) or 64-bit PV, its extended-state mask is \<open>m\<close>, PAE is enabled, nested
  virtualisation is not, and the host default feature set is all zero. With two
  feature-set words it resolves to \<open>sample_info\<close>.
\<close>

definition sample_env :: "cpuid_insn \<Rightarrow> bool \<Rightarrow> u64 \<Rightarrow> env" where
  "sample_env hw h m =
     \<lparr>hw_cpuid = hw,
      xc_domain_getinfo = (\<lambda>d. (1, \<lparr>di_domid = d, di_hvm = h, di_pvh = False\<rparr>)),
      calloc_ok = True,
      do_getvcpuextstate = (\<lambda>d. (0, m)),
      xc_hvm_param_get = (\<lambda>d p. (0, if p = HVM_PARAM_PAE_ENABLED then 1 else 0)),
      xc_get_cpu_featureset = (\<lambda>idx n. (0, replicate n 0)),
      xc_domain_get_guest_width = (\<lambda>d. (0, 8)),
      do_set_cpuid = (\<lambda>d i r. 0),
      alloc_str_ok = (\<lambda>i. True)\<rparr>"

text \<open>
  Directives for eax alone (the other three registers have none), and a caller feature
  set of three words whose third word, the one beyond a host count of two, is nonzero.
\<close>

definition eax_directive :: "string \<Rightarrow> (nat \<rightharpoonup> string)" where
  "eax_directive d = [0 \<mapsto> d]"

definition sample_set_directive :: string where
  "sample_set_directive = ''10xxxxxxxxxxxxxxxxxxxxxxxxxxxxks''"

definition sample_check_directive :: string where
  "sample_check_directive = ''ssssxxxx00000000000000001111ssss''"

definition sample_featureset :: "nat \<Rightarrow> u32" where
  "sample_featureset i = (if i = 2 then 0x00000005 else 0)"

section \<open>Properties of the policy engine\<close>

lemma and_low31_eq_1:
  fixes l :: u32
  assumes a: "l AND 0x7fffffff = 1"
  shows "l = 1 \<or> l = 0x80000001"
proof -
  have m: "(0x7fffffff::u32) = mask 31" by (simp add: mask_eq_exp_minus_1)
  from a have t: "take_bit 31 l = 1" by (simp add: m take_bit_eq_mask)
  have low: "bit l n \<longleftrightarrow> n = 0" if "n < 31" for n
  proof -
    have "bit (take_bit 31 l) n \<longleftrightarrow> bit (1::u32) n" by (simp only: t)
    with that show ?thesis by (simp add: bit_take_bit_iff bit_1_iff)
  qed
  define h :: u32 where "h = 1 OR push_bit 31 1"
  have hi: "h = 0x80000001" by (simp add: h_def)
  have bh: "bit h n \<longleftrightarrow> n = 0 \<or> n = 31" if "n < 32" for n
    unfolding h_def bit_or_iff bit_push_bit_iff bit_1_iff using that by auto
  show ?thesis
  proof (cases "bit l 31")
    case True
    have "l = h"
    proof (rule bit_word_eqI)
      fix n assume n: "n < LENGTH(32)"
      then have "n < 31 \<or> n = 31" by auto
      then show "bit l n \<longleftrightarrow> bit h n"
        using True low [of n] bh [of n] n by auto
    qed
    then show ?thesis by (simp add: hi)
  next
    case False
    have "l = 1"
    proof (rule bit_word_eqI)
      fix n assume "n < LENGTH(32)"
      then have "n < 31 \<or> n = 31" by auto
      then show "bit l n \<longleftrightarrow> bit (1 :: u32) n"
        using False low by (auto simp add: bit_1_iff)
    qed
    then show ?thesis by simp
  qed
qed

lemma hvm_unlisted_leaf_zero:
  assumes "hvm info" "l \<notin> hvm_rule_leaves" "l \<notin> hvm_passthrough_leaves"
  shows "xc_cpuid_policy fv hw info (l, sub) regs = zero_regs"
  using assms
  by (simp add: xc_cpuid_policy_def xc_cpuid_hvm_policy_def hvm_leaf_switch_def
      amd_xc_cpuid_policy_def intel_xc_cpuid_policy_def zero_regs_def Let_def
      hvm_rule_leaves_def hvm_passthrough_leaves_def)

lemma hvm_passthrough_leaf_vendor:
  assumes "hvm info" "l \<in> hvm_passthrough_leaves"
  shows "xc_cpuid_policy fv hw info (l, sub) regs =
           (if vendor info = VENDOR_AMD then amd_xc_cpuid_policy fv info (l, sub) regs
            else intel_xc_cpuid_policy fv info (l, sub) regs)"
proof -
  have hyp: "l AND 0xffff0000 \<noteq> 0x40000000" 
    using assms(2) unfolding hvm_passthrough_leaves_def by (elim insertE emptyE) simp_all
  have "hvm_leaf_switch fv hw info (l, sub) regs = regs"
    using assms(2) unfolding hvm_passthrough_leaves_def
    by (elim insertE emptyE) (simp_all add: hvm_leaf_switch_def hvm_passthrough_leaves_def)
  with hyp assms(1) show ?thesis
    by (simp add: xc_cpuid_policy_def xc_cpuid_hvm_policy_def Let_def)
qed

lemma hvm_passthrough_leaf_raw:
  assumes "hvm info"
    "l \<in> {0x0000000a, 0x80000002, 0x80000003, 0x80000004, 0x80000006, 0x8000001c}"
  shows "xc_cpuid_policy fv hw info (l, sub) regs = regs"
proof -
  have hyp: "l AND 0xffff0000 \<noteq> 0x40000000"
    using assms(2) by (elim insertE emptyE) simp_all
  have sw: "hvm_leaf_switch fv hw info (l, sub) regs = regs"
    using assms(2)
    by (elim insertE emptyE) (simp_all add: hvm_leaf_switch_def hvm_passthrough_leaves_def)
  have amd: "amd_xc_cpuid_policy fv info (l, sub) regs = regs"
    using assms(2) by (elim insertE emptyE) (simp_all add: amd_xc_cpuid_policy_def)
  have intel: "intel_xc_cpuid_policy fv info (l, sub) regs = regs"
    using assms(2) by (elim insertE emptyE) (simp_all add: intel_xc_cpuid_policy_def)
  from hyp sw amd intel assms(1) show ?thesis
    by (simp add: xc_cpuid_policy_def xc_cpuid_hvm_policy_def Let_def)
qed

lemma pv_unlisted_leaf_raw:
  assumes "\<not> hvm info" "l AND 0xffff0000 \<noteq> 0x40000000" "l \<notin> pv_rule_leaves"
    "l \<notin> pv_zeroed_leaves"
  shows "xc_cpuid_policy fv hw info (l, sub) regs = regs"
  using assms and_low31_eq_1 [of l]
  by (auto simp add: xc_cpuid_policy_def xc_cpuid_pv_policy_def Let_def pv_rule_leaves_def
      pv_zeroed_leaves_def)

lemma pv_zeroed_leaf_zero:
  assumes "\<not> hvm info" "l \<in> pv_zeroed_leaves"
  shows "xc_cpuid_policy fv hw info (l, sub) regs = zero_regs"
proof -
  have hyp: "l AND 0xffff0000 \<noteq> 0x40000000"
    using assms(2) unfolding pv_zeroed_leaves_def by (elim insertE emptyE) simp_all
  have "xc_cpuid_pv_policy fv hw info (l, sub) regs = zero_regs"
    using assms(2) unfolding pv_zeroed_leaves_def
    by (elim insertE emptyE)
      (simp_all add: xc_cpuid_pv_policy_def pv_zeroed_leaves_def zero_regs_def)
  with hyp assms(1) show ?thesis
    by (simp add: xc_cpuid_policy_def)
qed

text \<open>
  Claim C2, as amended. For an HVM context, a leaf that is neither a rule label nor a
  passthrough label of the HVM table comes out of the policy engine as the all-zero
  quadruple, whatever the raw hardware quadruple; a passthrough leaf reaches the vendor
  pass as raw hardware, and the six passthrough leaves that no vendor rule names come out
  exactly as raw hardware. For a PV context there is no default-deny: outside the
  hypervisor-reserved range, a leaf that is neither a rule label nor a zeroed label of the
  PV table comes out as raw hardware, unmodified, and the zeroed labels come out all-zero.
\<close>

theorem unlisted_leaf_policy:
  "(hvm info \<and> l \<notin> hvm_rule_leaves \<and> l \<notin> hvm_passthrough_leaves \<longrightarrow>
      xc_cpuid_policy fv hw info (l, sub) regs = zero_regs) \<and>
   (hvm info \<and> l \<in> hvm_passthrough_leaves \<longrightarrow>
      xc_cpuid_policy fv hw info (l, sub) regs =
        (if vendor info = VENDOR_AMD then amd_xc_cpuid_policy fv info (l, sub) regs
         else intel_xc_cpuid_policy fv info (l, sub) regs)) \<and>
   (hvm info \<and> l \<in> {0x0000000a, 0x80000002, 0x80000003, 0x80000004, 0x80000006, 0x8000001c} \<longrightarrow>
      xc_cpuid_policy fv hw info (l, sub) regs = regs) \<and>
   (\<not> hvm info \<and> l AND 0xffff0000 \<noteq> 0x40000000 \<and> l \<notin> pv_rule_leaves \<and>
    l \<notin> pv_zeroed_leaves \<longrightarrow>
      xc_cpuid_policy fv hw info (l, sub) regs = regs) \<and>
   (\<not> hvm info \<and> l \<in> pv_zeroed_leaves \<longrightarrow>
      xc_cpuid_policy fv hw info (l, sub) regs = zero_regs)"
  using hvm_unlisted_leaf_zero [of info l fv hw sub regs]
    hvm_passthrough_leaf_vendor [of info l fv hw sub regs]
    hvm_passthrough_leaf_raw [of info l fv hw sub regs]
    pv_unlisted_leaf_raw [of info l fv hw sub regs]
    pv_zeroed_leaf_zero [of info l fv hw sub regs]
  by blast

text \<open>
  The amended statement at concrete inputs: leaf 3 (unlisted in both tables), leaf 2 and
  leaf \<^verbatim>\<open>0xa\<close> (HVM passthrough labels) and leaf 5 (a PV zeroed label).
\<close>

theorem unlisted_leaf_policy_witness:
  "xc_cpuid_policy sample_fv sample_hw (sample_info VENDOR_INTEL True 0) (3, 0) sample_raw
     = zero_regs \<and>
   xc_cpuid_policy sample_fv sample_hw (sample_info VENDOR_AMD True 0) (2, 0) sample_raw
     = amd_xc_cpuid_policy sample_fv (sample_info VENDOR_AMD True 0) (2, 0) sample_raw \<and>
   xc_cpuid_policy sample_fv sample_hw (sample_info VENDOR_AMD True 0) (0xa, 0) sample_raw
     = sample_raw \<and>
   xc_cpuid_policy sample_fv sample_hw (sample_info VENDOR_INTEL False 0) (3, 0) sample_raw
     = sample_raw \<and>
   xc_cpuid_policy sample_fv sample_hw (sample_info VENDOR_INTEL False 0) (5, 0) sample_raw
     = zero_regs"
proof -
  have h: "hvm (sample_info VENDOR_INTEL True 0)" "hvm (sample_info VENDOR_AMD True 0)"
    "\<not> hvm (sample_info VENDOR_INTEL False 0)"
    "vendor (sample_info VENDOR_AMD True 0) = VENDOR_AMD"
    by (simp_all add: sample_info_def)
  have l: "(3::u32) \<notin> hvm_rule_leaves" "(3::u32) \<notin> hvm_passthrough_leaves"
    "(2::u32) \<in> hvm_passthrough_leaves" "(3::u32) \<notin> pv_rule_leaves"
    "(3::u32) \<notin> pv_zeroed_leaves" "(5::u32) \<in> pv_zeroed_leaves"
    "(3::u32) AND 0xffff0000 \<noteq> 0x40000000"
    by (simp_all add: hvm_rule_leaves_def hvm_passthrough_leaves_def pv_rule_leaves_def
        pv_zeroed_leaves_def)
  show ?thesis
    using unlisted_leaf_policy [of "sample_info VENDOR_INTEL True 0" 3 sample_fv sample_hw 0 sample_raw]
      unlisted_leaf_policy [of "sample_info VENDOR_AMD True 0" 2 sample_fv sample_hw 0 sample_raw]
      unlisted_leaf_policy [of "sample_info VENDOR_AMD True 0" "0xa" sample_fv sample_hw 0 sample_raw]
      unlisted_leaf_policy [of "sample_info VENDOR_INTEL False 0" 3 sample_fv sample_hw 0 sample_raw]
      unlisted_leaf_policy [of "sample_info VENDOR_INTEL False 0" 5 sample_fv sample_hw 0 sample_raw]
      h l
    by simp
qed

text \<open>
  Claim C2 as the specification words it fails twice: a PV context gets leaf 3, which no
  table lists, back as raw hardware rather than all-zero; and an AMD HVM context gets the
  passthrough leaf 2 back with eax, ebx and ecx cleared by the vendor pass rather than
  unmodified.
\<close>

theorem unlisted_leaf_policy_counterexample:
  "xc_cpuid_policy sample_fv sample_hw (sample_info VENDOR_INTEL False 0) (3, 0) sample_raw
     \<noteq> zero_regs \<and>
   xc_cpuid_policy sample_fv sample_hw (sample_info VENDOR_AMD True 0) (2, 0) sample_raw
     \<noteq> sample_raw"
  by (simp add: xc_cpuid_policy_def xc_cpuid_pv_policy_def xc_cpuid_hvm_policy_def
      hvm_leaf_switch_def amd_xc_cpuid_policy_def hvm_passthrough_leaves_def
      pv_zeroed_leaves_def sample_info_def sample_raw_def zero_regs_def Let_def)

text \<open>
  Claim C4. In a domain context whose extended-state mask is 0, the policy engine returns
  the all-zero quadruple for leaf \<^verbatim>\<open>0xd\<close> at every sub-leaf (0 to 63 and any other),
  for every raw hardware quadruple, guest type and vendor.
\<close>

theorem xsave_leaf_zero_when_mask_zero:
  "xfeature_mask info = 0 \<Longrightarrow> xc_cpuid_policy fv hw info (0xd, sub) regs = zero_regs"
  by (simp add: xc_cpuid_policy_def xc_cpuid_hvm_policy_def xc_cpuid_pv_policy_def
      hvm_leaf_switch_def xc_cpuid_config_xsave_def amd_xc_cpuid_policy_def
      intel_xc_cpuid_policy_def zero_regs_def Let_def)

theorem xsave_leaf_zero_when_mask_zero_witness:
  "xfeature_mask (sample_info VENDOR_AMD False 0) = 0 \<and>
   xc_cpuid_policy sample_fv sample_hw (sample_info VENDOR_AMD False 0) (0xd, 63) sample_raw
     = zero_regs"
proof -
  have h: "xfeature_mask (sample_info VENDOR_AMD False 0) = 0"
    by (simp add: sample_info_def)
  show ?thesis
    using h xsave_leaf_zero_when_mask_zero [OF h, of sample_fv sample_hw 63 sample_raw]
    by simp
qed

text \<open>
  Claim C8, as amended. For every leaf whose top 16 bits are \<^verbatim>\<open>0x4000\<close> the policy engine
  returns the all-zero quadruple, for every guest type, vendor and raw hardware
  quadruple: the low byte of eax, the sub-leaf count, is cleared with the rest.
\<close>

theorem hypervisor_leaf_all_zero:
  "l AND 0xffff0000 = 0x40000000 \<Longrightarrow> xc_cpuid_policy fv hw info (l, sub) regs = zero_regs"
  by (simp add: xc_cpuid_policy_def zero_regs_def)

theorem hypervisor_leaf_all_zero_witness:
  "(0x40000100::u32) AND 0xffff0000 = 0x40000000 \<and>
   xc_cpuid_policy sample_fv sample_hw (sample_info VENDOR_INTEL True 7) (0x40000100, 0)
     sample_raw = zero_regs"
proof -
  have h: "(0x40000100::u32) AND 0xffff0000 = 0x40000000" by simp
  show ?thesis
    using h hypervisor_leaf_all_zero [OF h, of sample_fv sample_hw
        "sample_info VENDOR_INTEL True 7" 0 sample_raw]
    by simp
qed

text \<open>
  Claim C8 as the specification words it: the sub-leaf count is not exempt. Raw hardware
  reports \<^verbatim>\<open>0xff\<close> in the low byte of eax for leaf \<^verbatim>\<open>0x40000000\<close>; the policy engine
  returns 0 there.
\<close>

theorem hypervisor_leaf_count_counterexample:
  "eax sample_raw AND 0xff = 0xff \<and>
   eax (xc_cpuid_policy sample_fv sample_hw (sample_info VENDOR_INTEL True 7) (0x40000000, 0)
          sample_raw) AND 0xff = 0"
  by (simp add: xc_cpuid_policy_def sample_raw_def)

section \<open>Properties of the directive compiler\<close>

declare set_bits.simps [simp del] check_bits.simps [simp del]

declare check_regs.simps [simp del] set_regs.simps [simp del]

subsection \<open>Single bits\<close>

lemma bit_at_iff: "bit_at reg j \<longleftrightarrow> bit reg (31 - j)"
  by (simp add: bit_at_def push_bit_of_1 and_exp_eq_0_iff_not_bit)

lemma bitmaskof_of_nat:
  assumes "n < 32"
  shows "bitmaskof (of_nat n) = 2 ^ n"
proof -
  have m: "(31::u32) = mask 5" by (simp add: mask_eq_exp_minus_1)
  have "unat ((of_nat n :: u32) AND mask 5) = take_bit 5 (unat (of_nat n :: u32))"
    by (simp only: unsigned_take_bit_eq flip: take_bit_eq_mask)
  also have "unat (of_nat n :: u32) = n"
    using assms by (simp add: unat_of_nat)
  also have "take_bit 5 n = n"
    using assms by (simp add: take_bit_nat_eq_self_iff)
  finally show ?thesis by (simp add: bitmaskof_def m push_bit_of_1)
qed

lemma bit_set_bit_u32:
  assumes "n < 32"
  shows "bit (set_bit_u32 (of_nat n) reg) k \<longleftrightarrow> k = n \<or> bit reg k"
  using assms by (auto simp add: set_bit_u32_def bitmaskof_of_nat bit_or_iff bit_exp_iff)

lemma bit_clear_bit:
  assumes "n < 32"
  shows "bit (clear_bit (of_nat n) reg) k \<longleftrightarrow> k \<noteq> n \<and> bit reg k"
  using assms
  by (auto simp add: clear_bit_def bitmaskof_of_nat bit_and_iff bit_not_iff bit_exp_iff
      dest: bit_imp_le_length)

subsection \<open>The inner loops\<close>

lemma set_bits_stop: "32 \<le> j \<Longrightarrow> set_bits polreg cfg j reg buf = (True, reg, buf)"
  by (subst set_bits.simps) simp

lemma set_bits_invalid:
  "j < 32 \<Longrightarrow> \<not> strchr ''10xks'' (config_char cfg j) \<Longrightarrow>
   set_bits polreg cfg j reg buf = (False, reg, buf)"
  by (subst set_bits.simps) (simp add: Let_def)

lemma set_bits_step:
  "j < 32 \<Longrightarrow> strchr ''10xks'' (config_char cfg j) \<Longrightarrow>
   set_bits polreg cfg j reg buf =
     set_bits polreg cfg (Suc j)
       (if (if config_char cfg j = CHR ''1'' then True
            else if config_char cfg j = CHR ''0'' then False
            else if config_char cfg j = CHR ''x'' then bit polreg (31 - j)
            else bit reg (31 - j))
        then set_bit_u32 (of_nat (31 - j)) reg else clear_bit (of_nat (31 - j)) reg)
       (buf[j := (if config_char cfg j = CHR ''s'' then val_char (bit reg (31 - j))
                  else config_char cfg j)])"
  by (subst set_bits.simps) (simp add: Let_def bit_at_iff)

lemma set_bits_result:
  "set_bits polreg cfg j reg buf = (ok, reg', buf') \<Longrightarrow>
     length buf' = length buf \<and>
     (\<forall>p. 32 \<le> p + j \<longrightarrow> bit reg' p = bit reg p) \<and>
     (\<forall>k. k < j \<or> 32 \<le> k \<longrightarrow> buf' ! k = buf ! k) \<and>
     (ok \<longleftrightarrow> (\<forall>k. j \<le> k \<and> k < 32 \<longrightarrow> strchr ''10xks'' (config_char cfg k))) \<and>
     (ok \<longrightarrow> (\<forall>k. j \<le> k \<and> k < 32 \<longrightarrow>
        (bit reg' (31 - k) \<longleftrightarrow>
           (if config_char cfg k = CHR ''1'' then True
            else if config_char cfg k = CHR ''0'' then False
            else if config_char cfg k = CHR ''x'' then bit polreg (31 - k)
            else bit reg (31 - k))) \<and>
        (k < length buf \<longrightarrow>
           buf' ! k = (if config_char cfg k = CHR ''s'' then val_char (bit reg (31 - k))
                       else config_char cfg k))))"
proof (induction "32 - j" arbitrary: j reg buf)
  case 0
  then have "32 \<le> j" by simp
  with 0 show ?case by (auto simp add: set_bits_stop)
next
  case (Suc n)
  then have j: "j < 32" and n: "n = 32 - Suc j" by auto
  show ?case
  proof (cases "strchr ''10xks'' (config_char cfg j)")
    case False
    with j Suc.prems have "ok = False" "reg' = reg" "buf' = buf"
      by (simp_all add: set_bits_invalid)
    with False j show ?thesis by auto
  next
    case True
    define v where "v = (if config_char cfg j = CHR ''1'' then True
            else if config_char cfg j = CHR ''0'' then False
            else if config_char cfg j = CHR ''x'' then bit polreg (31 - j)
            else bit reg (31 - j))"
    define reg1 where "reg1 = (if v then set_bit_u32 (of_nat (31 - j)) reg
                               else clear_bit (of_nat (31 - j)) reg)"
    define buf1 where "buf1 = buf[j := (if config_char cfg j = CHR ''s''
                         then val_char (bit reg (31 - j)) else config_char cfg j)]"
    have rec: "set_bits polreg cfg (Suc j) reg1 buf1 = (ok, reg', buf')"
      using Suc.prems j True by (simp add: set_bits_step v_def reg1_def buf1_def)
    note ih = Suc.hyps(1) [OF n rec]
    have ih_len: "length buf' = length buf1"
      and ih_unt: "\<And>p. 32 \<le> p + Suc j \<Longrightarrow> bit reg' p = bit reg1 p"
      and ih_buf: "\<And>k. k < Suc j \<or> 32 \<le> k \<Longrightarrow> buf' ! k = buf1 ! k"
      and ih_ok: "ok \<longleftrightarrow> (\<forall>k. Suc j \<le> k \<and> k < 32 \<longrightarrow> strchr ''10xks'' (config_char cfg k))"
      and ih_bit: "\<And>k. ok \<Longrightarrow> Suc j \<le> k \<Longrightarrow> k < 32 \<Longrightarrow>
        bit reg' (31 - k) \<longleftrightarrow>
           (if config_char cfg k = CHR ''1'' then True
            else if config_char cfg k = CHR ''0'' then False
            else if config_char cfg k = CHR ''x'' then bit polreg (31 - k)
            else bit reg1 (31 - k))"
      and ih_chr: "\<And>k. ok \<Longrightarrow> Suc j \<le> k \<Longrightarrow> k < 32 \<Longrightarrow> k < length buf1 \<Longrightarrow>
           buf' ! k = (if config_char cfg k = CHR ''s'' then val_char (bit reg1 (31 - k))
                       else config_char cfg k)"
      using ih by blast+
    have r1: "bit reg1 p \<longleftrightarrow> (if p = 31 - j then v else bit reg p)" for p
      by (simp add: reg1_def bit_set_bit_u32 bit_clear_bit)
    have len: "length buf' = length buf" using ih_len by (simp add: buf1_def)
    have untouched: "\<forall>p. 32 \<le> p + j \<longrightarrow> bit reg' p = bit reg p"
    proof (intro allI impI)
      fix p assume "32 \<le> p + j"
      then have "32 \<le> p + Suc j" "p \<noteq> 31 - j" using j by auto
      then show "bit reg' p = bit reg p" using ih_unt [of p] by (simp add: r1)
    qed
    have bufs: "\<forall>k. k < j \<or> 32 \<le> k \<longrightarrow> buf' ! k = buf ! k"
    proof (intro allI impI)
      fix k assume k: "k < j \<or> 32 \<le> k"
      then have "k < Suc j \<or> 32 \<le> k" "k \<noteq> j" using j by auto
      then show "buf' ! k = buf ! k" using ih_buf [of k] by (simp add: buf1_def)
    qed
    have okc: "ok \<longleftrightarrow> (\<forall>k. j \<le> k \<and> k < 32 \<longrightarrow> strchr ''10xks'' (config_char cfg k))"
      unfolding ih_ok using True by (metis Suc_leI le_neq_implies_less Suc_leD)
    have res: "ok \<longrightarrow> (\<forall>k. j \<le> k \<and> k < 32 \<longrightarrow>
        (bit reg' (31 - k) \<longleftrightarrow>
           (if config_char cfg k = CHR ''1'' then True
            else if config_char cfg k = CHR ''0'' then False
            else if config_char cfg k = CHR ''x'' then bit polreg (31 - k)
            else bit reg (31 - k))) \<and>
        (k < length buf \<longrightarrow>
           buf' ! k = (if config_char cfg k = CHR ''s'' then val_char (bit reg (31 - k))
                       else config_char cfg k)))"
    proof (intro impI allI)
      fix k assume ok: ok and k: "j \<le> k \<and> k < 32"
      show "(bit reg' (31 - k) \<longleftrightarrow>
           (if config_char cfg k = CHR ''1'' then True
            else if config_char cfg k = CHR ''0'' then False
            else if config_char cfg k = CHR ''x'' then bit polreg (31 - k)
            else bit reg (31 - k))) \<and>
        (k < length buf \<longrightarrow>
           buf' ! k = (if config_char cfg k = CHR ''s'' then val_char (bit reg (31 - k))
                       else config_char cfg k))"
      proof (cases "k = j")
        case True
        have "32 \<le> (31 - j) + Suc j" using j by simp
        then have "bit reg' (31 - j) = bit reg1 (31 - j)" by (rule ih_unt)
        moreover have "buf' ! j = buf1 ! j" using ih_buf [of j] by simp
        ultimately show ?thesis using True by (simp add: r1 v_def buf1_def)
      next
        case False
        with k have k': "Suc j \<le> k" "k < 32" by simp_all
        then have ne: "31 - k \<noteq> 31 - j" "k \<noteq> j" using j False by simp_all
        show ?thesis
          using ih_bit [OF ok k'] ih_chr [OF ok k'] ne
          by (simp add: r1 buf1_def)
      qed
    qed
    from len untouched bufs okc res show ?thesis by blast
  qed
qed

lemma check_bits_stop: "32 \<le> j \<Longrightarrow> check_bits reg cfg j buf = (True, buf)"
  by (subst check_bits.simps) simp

lemma check_bits_reject:
  "j < 32 \<Longrightarrow>
   \<not> strchr ''10xs'' (config_char cfg j) \<or>
   (config_char cfg j = CHR ''1'' \<and> \<not> bit reg (31 - j)) \<or>
   (config_char cfg j = CHR ''0'' \<and> bit reg (31 - j)) \<Longrightarrow>
   check_bits reg cfg j buf = (False, buf)"
  by (subst check_bits.simps) (auto simp add: Let_def bit_at_iff)

lemma check_bits_step:
  "j < 32 \<Longrightarrow>
   \<not> (\<not> strchr ''10xs'' (config_char cfg j) \<or>
      (config_char cfg j = CHR ''1'' \<and> \<not> bit reg (31 - j)) \<or>
      (config_char cfg j = CHR ''0'' \<and> bit reg (31 - j))) \<Longrightarrow>
   check_bits reg cfg j buf =
     check_bits reg cfg (Suc j)
       (buf[j := (if config_char cfg j = CHR ''s'' then val_char (bit reg (31 - j))
                  else config_char cfg j)])"
  by (subst check_bits.simps) (auto simp add: Let_def bit_at_iff)

lemma check_bits_result:
  "check_bits reg cfg j buf = (ok, buf') \<Longrightarrow>
     length buf' = length buf \<and>
     (\<forall>k. k < j \<or> 32 \<le> k \<longrightarrow> buf' ! k = buf ! k) \<and>
     (ok \<longleftrightarrow> (\<forall>k. j \<le> k \<and> k < 32 \<longrightarrow>
        \<not> (\<not> strchr ''10xs'' (config_char cfg k) \<or>
           (config_char cfg k = CHR ''1'' \<and> \<not> bit reg (31 - k)) \<or>
           (config_char cfg k = CHR ''0'' \<and> bit reg (31 - k))))) \<and>
     (ok \<longrightarrow> (\<forall>k. j \<le> k \<and> k < 32 \<and> k < length buf \<longrightarrow>
        buf' ! k = (if config_char cfg k = CHR ''s'' then val_char (bit reg (31 - k))
                    else config_char cfg k)))"
proof (induction "32 - j" arbitrary: j buf)
  case 0
  then have "32 \<le> j" by simp
  with 0 show ?case by (auto simp add: check_bits_stop)
next
  case (Suc n)
  then have j: "j < 32" and n: "n = 32 - Suc j" by auto
  let ?bad = "\<lambda>k. \<not> strchr ''10xs'' (config_char cfg k) \<or>
           (config_char cfg k = CHR ''1'' \<and> \<not> bit reg (31 - k)) \<or>
           (config_char cfg k = CHR ''0'' \<and> bit reg (31 - k))"
  show ?case
  proof (cases "?bad j")
    case True
    with j Suc.prems have "ok = False" "buf' = buf"
      by (simp_all add: check_bits_reject)
    with True j show ?thesis by auto
  next
    case False
    define buf1 where "buf1 = buf[j := (if config_char cfg j = CHR ''s''
                         then val_char (bit reg (31 - j)) else config_char cfg j)]"
    have rec: "check_bits reg cfg (Suc j) buf1 = (ok, buf')"
      using Suc.prems j False check_bits_step [of j cfg reg buf] by (simp add: buf1_def)
    note ih = Suc.hyps(1) [OF n rec]
    have ih_len: "length buf' = length buf1"
      and ih_buf: "\<And>k. k < Suc j \<or> 32 \<le> k \<Longrightarrow> buf' ! k = buf1 ! k"
      and ih_ok: "ok \<longleftrightarrow> (\<forall>k. Suc j \<le> k \<and> k < 32 \<longrightarrow> \<not> ?bad k)"
      and ih_chr: "\<And>k. ok \<Longrightarrow> Suc j \<le> k \<Longrightarrow> k < 32 \<Longrightarrow> k < length buf1 \<Longrightarrow>
           buf' ! k = (if config_char cfg k = CHR ''s'' then val_char (bit reg (31 - k))
                       else config_char cfg k)"
      using ih by blast+
    have len: "length buf' = length buf" using ih_len by (simp add: buf1_def)
    have bufs: "\<forall>k. k < j \<or> 32 \<le> k \<longrightarrow> buf' ! k = buf ! k"
    proof (intro allI impI)
      fix k assume k: "k < j \<or> 32 \<le> k"
      then have "k < Suc j \<or> 32 \<le> k" "k \<noteq> j" using j by auto
      then show "buf' ! k = buf ! k" using ih_buf [of k] by (simp add: buf1_def)
    qed
    have okc: "ok \<longleftrightarrow> (\<forall>k. j \<le> k \<and> k < 32 \<longrightarrow> \<not> ?bad k)"
    proof
      assume ok
      with ih_ok have a: "\<forall>k. Suc j \<le> k \<and> k < 32 \<longrightarrow> \<not> ?bad k" by simp
      show "\<forall>k. j \<le> k \<and> k < 32 \<longrightarrow> \<not> ?bad k"
      proof (intro allI impI)
        fix k assume "j \<le> k \<and> k < 32"
        then have "k = j \<or> (Suc j \<le> k \<and> k < 32)" by auto
        then show "\<not> ?bad k" using a False by blast
      qed
    next
      assume "\<forall>k. j \<le> k \<and> k < 32 \<longrightarrow> \<not> ?bad k"
      then have "\<forall>k. Suc j \<le> k \<and> k < 32 \<longrightarrow> \<not> ?bad k" by (meson Suc_leD)
      with ih_ok show ok by simp
    qed
    have res: "ok \<longrightarrow> (\<forall>k. j \<le> k \<and> k < 32 \<and> k < length buf \<longrightarrow>
        buf' ! k = (if config_char cfg k = CHR ''s'' then val_char (bit reg (31 - k))
                    else config_char cfg k))"
    proof (intro impI allI)
      fix k assume ok: ok and k: "j \<le> k \<and> k < 32 \<and> k < length buf"
      show "buf' ! k = (if config_char cfg k = CHR ''s'' then val_char (bit reg (31 - k))
                    else config_char cfg k)"
      proof (cases "k = j")
        case True
        have "buf' ! j = buf1 ! j" using ih_buf [of j] by simp
        then show ?thesis using True k by (simp add: buf1_def)
      next
        case False
        with k have k': "Suc j \<le> k" "k < 32" "k < length buf1" by (simp_all add: buf1_def)
        show ?thesis using ih_chr [OF ok k'] .
      qed
    qed
    from len bufs okc res show ?thesis by blast
  qed
qed

subsection \<open>The outer loops\<close>

lemma check_regs_result:
  "check_regs e regs config i ct = (rc, ct') \<Longrightarrow>
     (\<forall>k. k < i \<or> 4 \<le> k \<longrightarrow> ct' k = ct k) \<and>
     (rc = None \<or> rc = Some ENOMEM \<or> rc = Some EPERM) \<and>
     (rc = None \<longrightarrow> (\<forall>k. i \<le> k \<and> k < 4 \<longrightarrow>
         (config k = None \<longrightarrow> ct' k = ct k) \<and>
         (\<forall>cfg. config k = Some cfg \<longrightarrow> alloc_str_ok e k \<and>
            (\<exists>buf. check_bits (reg_get k regs) cfg 0 alloc_str = (True, buf) \<and>
                   ct' k = Some buf)))) \<and>
     (rc = Some ENOMEM \<longrightarrow> (\<exists>k. i \<le> k \<and> k < 4 \<and> config k \<noteq> None \<and> \<not> alloc_str_ok e k)) \<and>
     (rc = Some EPERM \<longrightarrow> (\<exists>k cfg. i \<le> k \<and> k < 4 \<and> config k = Some cfg \<and>
         \<not> fst (check_bits (reg_get k regs) cfg 0 alloc_str)))"
proof (induction "4 - i" arbitrary: i ct)
  case 0
  then have "4 \<le> i" by simp
  with 0 show ?case by (subst (asm) check_regs.simps) auto
next
  case (Suc n)
  then have i: "i < 4" and n: "n = 4 - Suc i" by auto
  show ?case
  proof (cases "config i")
    case None
    have rec: "check_regs e regs config (Suc i) ct = (rc, ct')"
      using Suc.prems i None by (subst (asm) check_regs.simps) simp
    note ih = Suc.hyps(1) [OF n rec]
    have split: "\<And>k. i \<le> k \<Longrightarrow> k = i \<or> Suc i \<le> k" by auto
    have a: "\<forall>k. k < i \<or> 4 \<le> k \<longrightarrow> ct' k = ct k" using ih by auto
    have b: "rc = None \<or> rc = Some ENOMEM \<or> rc = Some EPERM" using ih by blast
    have c: "rc = None \<longrightarrow> (\<forall>k. i \<le> k \<and> k < 4 \<longrightarrow>
         (config k = None \<longrightarrow> ct' k = ct k) \<and>
         (\<forall>cfg. config k = Some cfg \<longrightarrow> alloc_str_ok e k \<and>
            (\<exists>buf. check_bits (reg_get k regs) cfg 0 alloc_str = (True, buf) \<and>
                   ct' k = Some buf)))"
    proof (intro impI allI)
      fix k assume r: "rc = None" and k: "i \<le> k \<and> k < 4"
      show "(config k = None \<longrightarrow> ct' k = ct k) \<and>
         (\<forall>cfg. config k = Some cfg \<longrightarrow> alloc_str_ok e k \<and>
            (\<exists>buf. check_bits (reg_get k regs) cfg 0 alloc_str = (True, buf) \<and>
                   ct' k = Some buf))"
      proof (cases "k = i")
        case True
        then have "ct' k = ct k" using ih by simp
        with True None show ?thesis by simp
      next
        case False
        with k have "Suc i \<le> k \<and> k < 4" by simp
        with ih r show ?thesis by blast
      qed
    qed
    have d: "rc = Some ENOMEM \<longrightarrow>
        (\<exists>k. i \<le> k \<and> k < 4 \<and> config k \<noteq> None \<and> \<not> alloc_str_ok e k)"
      using ih by (meson Suc_leD)
    have f: "rc = Some EPERM \<longrightarrow> (\<exists>k cfg. i \<le> k \<and> k < 4 \<and> config k = Some cfg \<and>
         \<not> fst (check_bits (reg_get k regs) cfg 0 alloc_str))"
      using ih by (meson Suc_leD)
    from a b c d f show ?thesis by blast
  next
    case (Some cfg)
    show ?thesis
    proof (cases "alloc_str_ok e i")
      case False
      have "rc = Some ENOMEM" "ct' = ct"
        using Suc.prems i Some False by (subst (asm) check_regs.simps, simp)+
      with False Some i show ?thesis by auto
    next
      case True
      obtain ok buf where cb: "check_bits (reg_get i regs) cfg 0 alloc_str = (ok, buf)"
        by (cases "check_bits (reg_get i regs) cfg 0 alloc_str") auto
      show ?thesis
      proof (cases ok)
        case False
        have "rc = Some EPERM" "ct' = ct(i \<mapsto> buf)"
          using Suc.prems i Some True cb False by (subst (asm) check_regs.simps, simp)+
        with False Some i cb show ?thesis by auto
      next
        case ok: True
        have rec: "check_regs e regs config (Suc i) (ct(i \<mapsto> buf)) = (rc, ct')"
          using Suc.prems i Some True cb ok by (subst (asm) check_regs.simps) simp
        note ih = Suc.hyps(1) [OF n rec]
        have a: "\<forall>k. k < i \<or> 4 \<le> k \<longrightarrow> ct' k = ct k" using ih i by auto
        have b: "rc = None \<or> rc = Some ENOMEM \<or> rc = Some EPERM" using ih by blast
        have c: "rc = None \<longrightarrow> (\<forall>k. i \<le> k \<and> k < 4 \<longrightarrow>
             (config k = None \<longrightarrow> ct' k = ct k) \<and>
             (\<forall>cfg. config k = Some cfg \<longrightarrow> alloc_str_ok e k \<and>
                (\<exists>buf. check_bits (reg_get k regs) cfg 0 alloc_str = (True, buf) \<and>
                       ct' k = Some buf)))"
        proof (intro impI allI)
          fix k assume r: "rc = None" and k: "i \<le> k \<and> k < 4"
          show "(config k = None \<longrightarrow> ct' k = ct k) \<and>
             (\<forall>cfg. config k = Some cfg \<longrightarrow> alloc_str_ok e k \<and>
                (\<exists>buf. check_bits (reg_get k regs) cfg 0 alloc_str = (True, buf) \<and>
                       ct' k = Some buf))"
          proof (cases "k = i")
            case True
            then have "ct' k = Some buf" using ih by simp
            with True Some \<open>alloc_str_ok e i\<close> cb ok show ?thesis by simp
          next
            case False
            with k have k': "Suc i \<le> k \<and> k < 4" by simp
            from ih r k' have
              "(config k = None \<longrightarrow> ct' k = (ct(i \<mapsto> buf)) k) \<and>
               (\<forall>cfg. config k = Some cfg \<longrightarrow> alloc_str_ok e k \<and>
                (\<exists>buf. check_bits (reg_get k regs) cfg 0 alloc_str = (True, buf) \<and>
                       ct' k = Some buf))" by blast
            with False show ?thesis by simp
          qed
        qed
        have d: "rc = Some ENOMEM \<longrightarrow>
            (\<exists>k. i \<le> k \<and> k < 4 \<and> config k \<noteq> None \<and> \<not> alloc_str_ok e k)"
          using ih by (meson Suc_leD)
        have f: "rc = Some EPERM \<longrightarrow> (\<exists>k cfg. i \<le> k \<and> k < 4 \<and> config k = Some cfg \<and>
             \<not> fst (check_bits (reg_get k regs) cfg 0 alloc_str))"
          using ih by (meson Suc_leD)
        from a b c d f show ?thesis by blast
      qed
    qed
  qed
qed

lemma reg_get_set:
  "i < 4 \<Longrightarrow> k < 4 \<Longrightarrow> reg_get k (reg_set i v r) = (if k = i then v else reg_get k r)"
  by (auto simp add: reg_get_def reg_set_def)

lemma set_regs_result:
  "set_regs e polregs config i regs ct = (rc, regs', ct') \<Longrightarrow>
     (\<forall>k. k < i \<or> 4 \<le> k \<longrightarrow> ct' k = ct k) \<and>
     (\<forall>k. k < i \<and> k < 4 \<longrightarrow> reg_get k regs' = reg_get k regs) \<and>
     (rc = None \<or> rc = Some ENOMEM \<or> rc = Some EINVAL) \<and>
     (rc = None \<longrightarrow> (\<forall>k. i \<le> k \<and> k < 4 \<longrightarrow>
         (config k = None \<longrightarrow> ct' k = ct k \<and> reg_get k regs' = reg_get k polregs) \<and>
         (\<forall>cfg. config k = Some cfg \<longrightarrow> alloc_str_ok e k \<and>
            (\<exists>buf. set_bits (reg_get k polregs) cfg 0 (reg_get k regs) alloc_str
                     = (True, reg_get k regs', buf) \<and>
                   ct' k = Some buf)))) \<and>
     (rc = Some ENOMEM \<longrightarrow> (\<exists>k. i \<le> k \<and> k < 4 \<and> config k \<noteq> None \<and> \<not> alloc_str_ok e k)) \<and>
     (rc = Some EINVAL \<longrightarrow> (\<exists>k cfg. i \<le> k \<and> k < 4 \<and> config k = Some cfg \<and>
         \<not> fst (set_bits (reg_get k polregs) cfg 0 (reg_get k regs) alloc_str)))"
proof (induction "4 - i" arbitrary: i regs ct)
  case 0
  then have "4 \<le> i" by simp
  with 0 show ?case by (subst (asm) set_regs.simps) auto
next
  case (Suc n)
  then have i: "i < 4" and n: "n = 4 - Suc i" by auto
  let ?Q = "\<lambda>regs0 ct0 k.
         (config k = None \<longrightarrow> ct' k = ct0 k \<and> reg_get k regs' = reg_get k polregs) \<and>
         (\<forall>cfg. config k = Some cfg \<longrightarrow> alloc_str_ok e k \<and>
            (\<exists>buf. set_bits (reg_get k polregs) cfg 0 (reg_get k regs0) alloc_str
                     = (True, reg_get k regs', buf) \<and>
                   ct' k = Some buf))"
  have later: "reg_get k (reg_set i v regs) = reg_get k regs" if "Suc i \<le> k" "k < 4" for k v
    using that i by (simp add: reg_get_set)
  have earlier: "reg_get k (reg_set i v regs) = reg_get k regs" if "k < i" for k v
    using that i by (simp add: reg_get_set)
  show ?case
  proof (cases "config i")
    case None
    define regs1 where "regs1 = reg_set i (reg_get i polregs) regs"
    have rec: "set_regs e polregs config (Suc i) regs1 ct = (rc, regs', ct')"
      using Suc.prems i None by (subst (asm) set_regs.simps) (simp add: regs1_def)
    note ih = Suc.hyps(1) [OF n rec]
    have ih_reg: "\<And>k. k < Suc i \<Longrightarrow> k < 4 \<Longrightarrow> reg_get k regs' = reg_get k regs1"
      and ih_ct: "\<And>k. k < Suc i \<or> 4 \<le> k \<Longrightarrow> ct' k = ct k"
      and ih_ok: "\<And>k. rc = None \<Longrightarrow> Suc i \<le> k \<Longrightarrow> k < 4 \<Longrightarrow> ?Q regs1 ct k"
      using ih by blast+
    have a: "\<forall>k. k < i \<or> 4 \<le> k \<longrightarrow> ct' k = ct k" using ih_ct by auto
    have a': "\<forall>k. k < i \<and> k < 4 \<longrightarrow> reg_get k regs' = reg_get k regs"
      using ih_reg earlier by (simp add: regs1_def)
    have b: "rc = None \<or> rc = Some ENOMEM \<or> rc = Some EINVAL" using ih by blast
    have c: "rc = None \<longrightarrow> (\<forall>k. i \<le> k \<and> k < 4 \<longrightarrow> ?Q regs ct k)"
    proof (intro impI allI)
      fix k assume r: "rc = None" and k: "i \<le> k \<and> k < 4"
      show "?Q regs ct k"
      proof (cases "k = i")
        case True
        have "ct' i = ct i" using ih_ct [of i] by simp
        moreover have "reg_get i regs' = reg_get i polregs"
          using ih_reg [of i] i by (simp add: regs1_def reg_get_set)
        ultimately show ?thesis using True None by simp
      next
        case False
        with k have k': "Suc i \<le> k" "k < 4" by simp_all
        show ?thesis using ih_ok [OF r k'] later [OF k'] by (simp add: regs1_def)
      qed
    qed
    have d: "rc = Some ENOMEM \<longrightarrow>
        (\<exists>k. i \<le> k \<and> k < 4 \<and> config k \<noteq> None \<and> \<not> alloc_str_ok e k)"
      using ih by (meson Suc_leD)
    have f: "rc = Some EINVAL \<longrightarrow> (\<exists>k cfg. i \<le> k \<and> k < 4 \<and> config k = Some cfg \<and>
         \<not> fst (set_bits (reg_get k polregs) cfg 0 (reg_get k regs) alloc_str))"
    proof
      assume "rc = Some EINVAL"
      with ih obtain k cfg where k: "Suc i \<le> k" "k < 4" "config k = Some cfg"
        "\<not> fst (set_bits (reg_get k polregs) cfg 0 (reg_get k regs1) alloc_str)" by blast
      then show "\<exists>k cfg. i \<le> k \<and> k < 4 \<and> config k = Some cfg \<and>
         \<not> fst (set_bits (reg_get k polregs) cfg 0 (reg_get k regs) alloc_str)"
        using later [of k] by (auto simp add: regs1_def intro!: exI [of _ k])
    qed
    from a a' b c d f show ?thesis by blast
  next
    case (Some cfg)
    show ?thesis
    proof (cases "alloc_str_ok e i")
      case False
      have "rc = Some ENOMEM" "ct' = ct" "regs' = regs"
        using Suc.prems i Some False by (subst (asm) set_regs.simps, simp)+
      with False Some i show ?thesis by auto
    next
      case True
      obtain ok reg buf where
        sb: "set_bits (reg_get i polregs) cfg 0 (reg_get i regs) alloc_str = (ok, reg, buf)"
        by (cases "set_bits (reg_get i polregs) cfg 0 (reg_get i regs) alloc_str") auto
      define regs1 where "regs1 = reg_set i reg regs"
      show ?thesis
      proof (cases ok)
        case False
        have "rc = Some EINVAL" "ct' = ct(i \<mapsto> buf)" "regs' = regs1"
          using Suc.prems i Some True sb False
          by (subst (asm) set_regs.simps, simp add: regs1_def)+
        with False Some i sb earlier show ?thesis by (auto simp add: regs1_def)
      next
        case ok: True
        have rec: "set_regs e polregs config (Suc i) regs1 (ct(i \<mapsto> buf)) = (rc, regs', ct')"
          using Suc.prems i Some True sb ok
          by (subst (asm) set_regs.simps) (simp add: regs1_def)
        note ih = Suc.hyps(1) [OF n rec]
        have ih_reg: "\<And>k. k < Suc i \<Longrightarrow> k < 4 \<Longrightarrow> reg_get k regs' = reg_get k regs1"
          and ih_ct: "\<And>k. k < Suc i \<or> 4 \<le> k \<Longrightarrow> ct' k = (ct(i \<mapsto> buf)) k"
          and ih_ok: "\<And>k. rc = None \<Longrightarrow> Suc i \<le> k \<Longrightarrow> k < 4 \<Longrightarrow> ?Q regs1 (ct(i \<mapsto> buf)) k"
          using ih by blast+
        have a: "\<forall>k. k < i \<or> 4 \<le> k \<longrightarrow> ct' k = ct k" using ih_ct i by auto
        have a': "\<forall>k. k < i \<and> k < 4 \<longrightarrow> reg_get k regs' = reg_get k regs"
          using ih_reg earlier by (simp add: regs1_def)
        have b: "rc = None \<or> rc = Some ENOMEM \<or> rc = Some EINVAL" using ih by blast
        have c: "rc = None \<longrightarrow> (\<forall>k. i \<le> k \<and> k < 4 \<longrightarrow> ?Q regs ct k)"
        proof (intro impI allI)
          fix k assume r: "rc = None" and k: "i \<le> k \<and> k < 4"
          show "?Q regs ct k"
          proof (cases "k = i")
            case True
            have "ct' i = Some buf" using ih_ct [of i] by simp
            moreover have "reg_get i regs' = reg"
              using ih_reg [of i] i by (simp add: regs1_def reg_get_set)
            ultimately show ?thesis using True Some \<open>alloc_str_ok e i\<close> sb ok by simp
          next
            case False
            with k have k': "Suc i \<le> k" "k < 4" by simp_all
            then have "k \<noteq> i" by simp
            then show ?thesis using ih_ok [OF r k'] later [OF k'] by (simp add: regs1_def)
          qed
        qed
        have d: "rc = Some ENOMEM \<longrightarrow>
            (\<exists>k. i \<le> k \<and> k < 4 \<and> config k \<noteq> None \<and> \<not> alloc_str_ok e k)"
          using ih by (meson Suc_leD)
        have f: "rc = Some EINVAL \<longrightarrow> (\<exists>k cfg. i \<le> k \<and> k < 4 \<and> config k = Some cfg \<and>
             \<not> fst (set_bits (reg_get k polregs) cfg 0 (reg_get k regs) alloc_str))"
        proof
          assume "rc = Some EINVAL"
          with ih obtain k cfg where k: "Suc i \<le> k" "k < 4" "config k = Some cfg"
            "\<not> fst (set_bits (reg_get k polregs) cfg 0 (reg_get k regs1) alloc_str)" by blast
          then show "\<exists>k cfg. i \<le> k \<and> k < 4 \<and> config k = Some cfg \<and>
             \<not> fst (set_bits (reg_get k polregs) cfg 0 (reg_get k regs) alloc_str)"
            using later [of k] by (auto simp add: regs1_def intro!: exI [of _ k])
        qed
        from a a' b c d f show ?thesis by blast
      qed
    qed
  qed
qed

subsection \<open>The entry points\<close>

lemma strchr_check_alphabet:
  "strchr ''10xs'' c \<longleftrightarrow> c = CHR ''1'' \<or> c = CHR ''0'' \<or> c = CHR ''x'' \<or> c = CHR ''s'' \<or> c = CHR 0x00"
  by (auto simp add: strchr_def)

lemma strchr_set_alphabet:
  "strchr ''10xks'' c \<longleftrightarrow>
     c = CHR ''1'' \<or> c = CHR ''0'' \<or> c = CHR ''x'' \<or> c = CHR ''k'' \<or> c = CHR ''s'' \<or> c = CHR 0x00"
  by (auto simp add: strchr_def)

lemma check_bits_accepts:
  "fst (check_bits reg cfg 0 buf) \<longleftrightarrow>
     (\<forall>j<32. (config_char cfg j = CHR ''1'' \<and> bit reg (31 - j)) \<or>
              (config_char cfg j = CHR ''0'' \<and> \<not> bit reg (31 - j)) \<or>
              config_char cfg j = CHR ''x'' \<or> config_char cfg j = CHR ''s'' \<or>
              config_char cfg j = CHR 0x00)"
proof -
  obtain ok buf' where cb: "check_bits reg cfg 0 buf = (ok, buf')"
    by (cases "check_bits reg cfg 0 buf") auto
  have "ok \<longleftrightarrow> (\<forall>k. 0 \<le> k \<and> k < 32 \<longrightarrow>
        \<not> (\<not> strchr ''10xs'' (config_char cfg k) \<or>
           (config_char cfg k = CHR ''1'' \<and> \<not> bit reg (31 - k)) \<or>
           (config_char cfg k = CHR ''0'' \<and> bit reg (31 - k))))"
    using check_bits_result [OF cb] by blast
  then show ?thesis
    unfolding cb strchr_check_alphabet by auto
qed

lemma xc_cpuid_check_eq:
  "xc_cpuid_check e input config =
     (case check_regs e (cpuid (hw_cpuid e) input) config 0 Map.empty of
        (None, ct) \<Rightarrow> (None, ct)
      | (Some err, ct) \<Rightarrow> (Some err, free_config_transformed ct))"
  by (simp add: xc_cpuid_check_def Let_def split: prod.splits option.splits)

lemma free_config_transformed_empty:
  "(\<forall>k. 4 \<le> k \<longrightarrow> ct k = None) \<Longrightarrow> free_config_transformed ct k = None"
  by (cases "k < 4") (auto simp add: free_config_transformed_def)

lemma xc_cpuid_set_Inl:
  "get_cpuid_domain_info n e domid None 0 = Inl err \<Longrightarrow>
   xc_cpuid_set fv n e domid input config = (Some err, Map.empty, [])"
  by (simp add: xc_cpuid_set_def)

lemma xc_cpuid_set_Inr:
  "get_cpuid_domain_info n e domid None 0 = Inr info \<Longrightarrow>
   xc_cpuid_set fv n e domid input config =
     (case set_regs e (xc_cpuid_policy fv (hw_cpuid e) info input (cpuid (hw_cpuid e) input))
             config 0 (cpuid (hw_cpuid e) input) Map.empty of
        (Some err, regs', ct) \<Rightarrow> (Some err, free_config_transformed ct, [])
      | (None, regs', ct) \<Rightarrow>
          (if do_set_cpuid e domid input regs' = 0 then (None, ct, [(input, regs')])
           else (Some (ExternalFailure (do_set_cpuid e domid input regs')),
                 free_config_transformed ct, [(input, regs')])))"
  by (simp add: xc_cpuid_set_def xc_cpuid_do_domctl_def Let_def
      split: prod.splits option.splits)

lemma check_outputs_all_or_nothing:
  "(fst (xc_cpuid_check e input config) \<noteq> None \<longrightarrow>
      (\<forall>i. snd (xc_cpuid_check e input config) i = None)) \<and>
   (fst (xc_cpuid_check e input config) = None \<longrightarrow>
      (\<forall>i. snd (xc_cpuid_check e input config) i \<noteq> None \<longleftrightarrow> i < 4 \<and> config i \<noteq> None))"
proof -
  let ?regs = "cpuid (hw_cpuid e) input"
  obtain rc ct where cr: "check_regs e ?regs config 0 Map.empty = (rc, ct)"
    by (cases "check_regs e ?regs config 0 Map.empty") auto
  note r = check_regs_result [OF cr]
  have hi: "\<forall>k. 4 \<le> k \<longrightarrow> ct k = None" using r by simp
  show ?thesis
  proof (cases rc)
    case None
    have "xc_cpuid_check e input config = (None, ct)"
      unfolding xc_cpuid_check_eq cr None by simp
    moreover have "ct i \<noteq> None \<longleftrightarrow> i < 4 \<and> config i \<noteq> None" for i
    proof (cases "i < 4")
      case True
      from r None have q: "(config i = None \<longrightarrow> ct i = Map.empty i) \<and>
         (\<forall>cfg. config i = Some cfg \<longrightarrow> alloc_str_ok e i \<and>
            (\<exists>buf. check_bits (reg_get i ?regs) cfg 0 alloc_str = (True, buf) \<and>
                   ct i = Some buf))"
        using True by blast
      show ?thesis
      proof (cases "config i")
        case None
        with q True show ?thesis by simp
      next
        case (Some cfg)
        with q obtain buf where "ct i = Some buf" by blast
        with Some True show ?thesis by simp
      qed
    next
      case False
      with hi show ?thesis by simp
    qed
    ultimately show ?thesis by simp
  next
    case (Some err)
    have "xc_cpuid_check e input config = (Some err, free_config_transformed ct)"
      unfolding xc_cpuid_check_eq cr Some by simp
    then show ?thesis using free_config_transformed_empty [OF hi] by simp
  qed
qed

lemma set_outputs_all_or_nothing:
  "(fst (xc_cpuid_set fv n e domid input config) \<noteq> None \<longrightarrow>
      (\<forall>i. fst (snd (xc_cpuid_set fv n e domid input config)) i = None)) \<and>
   (fst (xc_cpuid_set fv n e domid input config) = None \<longrightarrow>
      (\<forall>i. fst (snd (xc_cpuid_set fv n e domid input config)) i \<noteq> None \<longleftrightarrow>
           i < 4 \<and> config i \<noteq> None))"
proof (cases "get_cpuid_domain_info n e domid None 0")
  case (Inl err)
  then show ?thesis by (simp add: xc_cpuid_set_Inl)
next
  case (Inr info)
  let ?raw = "cpuid (hw_cpuid e) input"
  let ?pol = "xc_cpuid_policy fv (hw_cpuid e) info input ?raw"
  obtain rc prog ct where sr: "set_regs e ?pol config 0 ?raw Map.empty = (rc, prog, ct)"
    by (cases "set_regs e ?pol config 0 ?raw Map.empty") auto
  note r = set_regs_result [OF sr]
  have hi: "\<forall>k. 4 \<le> k \<longrightarrow> ct k = None" using r by simp
  show ?thesis
  proof (cases "rc = None \<and> do_set_cpuid e domid input prog = 0")
    case True
    then have res: "xc_cpuid_set fv n e domid input config = (None, ct, [(input, prog)])"
      unfolding xc_cpuid_set_Inr [OF Inr] sr by simp
    have "ct i \<noteq> None \<longleftrightarrow> i < 4 \<and> config i \<noteq> None" for i
    proof (cases "i < 4")
      case lt: True
      from r True lt have q: "(config i = None \<longrightarrow> ct i = Map.empty i \<and> reg_get i prog = reg_get i ?pol) \<and>
         (\<forall>cfg. config i = Some cfg \<longrightarrow> alloc_str_ok e i \<and>
            (\<exists>buf. set_bits (reg_get i ?pol) cfg 0 (reg_get i ?raw) alloc_str
                     = (True, reg_get i prog, buf) \<and> ct i = Some buf))"
        by blast
      show ?thesis
      proof (cases "config i")
        case None
        with q lt show ?thesis by simp
      next
        case (Some cfg)
        with q obtain buf where "ct i = Some buf" by blast
        with Some lt show ?thesis by simp
      qed
    next
      case False
      with hi show ?thesis by simp
    qed
    with res show ?thesis by simp
  next
    case False
    then obtain err calls where
      "xc_cpuid_set fv n e domid input config = (Some err, free_config_transformed ct, calls)"
      unfolding xc_cpuid_set_Inr [OF Inr] sr by (cases rc) auto
    then show ?thesis using free_config_transformed_empty [OF hi] by simp
  qed
qed

lemma sample_env_resolves:
  "get_cpuid_domain_info 2 (sample_env sample_hw h m) d None 0
     = Inr (sample_info VENDOR_UNKNOWN h m)"
proof -
  have r: "replicate 2 (0::u32) = [0, 0]" by (simp add: numeral_2_eq_2)
  show ?thesis
    by (simp add: get_cpuid_domain_info_def sample_env_def sample_info_def sample_hw_def
        sample_raw_def cpuid_def Let_def r)
qed

text \<open>
  Claim C10. When check mode succeeds, every register that has a directive receives a
  33-byte output string, NUL-terminated, whose 32 characters are those of the directive
  except at the positions holding \<open>s\<close>, which hold \<open>1\<close> or \<open>0\<close> according to the raw
  hardware bit at that position (index 0 is bit 31). Every other character, \<open>x\<close>
  included, is echoed: check mode never resolves \<open>x\<close>.
\<close>

theorem check_mode_transformed_directive:
  assumes "xc_cpuid_check e input config = (None, ct)" "i < 4" "config i = Some cfg"
  shows "\<exists>buf. ct i = Some buf \<and> length buf = 33 \<and> buf ! 32 = CHR 0x00 \<and>
           (\<forall>j<32. buf ! j =
              (if config_char cfg j = CHR ''s''
               then (if bit (reg_get i (cpuid (hw_cpuid e) input)) (31 - j)
                     then CHR ''1'' else CHR ''0'')
               else config_char cfg j))"
proof -
  let ?regs = "cpuid (hw_cpuid e) input"
  have cr: "check_regs e ?regs config 0 Map.empty = (None, ct)"
    using assms(1) unfolding xc_cpuid_check_eq by (auto split: prod.splits option.splits)
  from check_regs_result [OF cr] assms(2,3) obtain buf where
    cb: "check_bits (reg_get i ?regs) cfg 0 alloc_str = (True, buf)" and ct: "ct i = Some buf"
    by blast
  note r = check_bits_result [OF cb]
  have len: "length buf = 33" using r by (simp add: alloc_str_def)
  have "buf ! 32 = alloc_str ! 32"
    using r [THEN conjunct2, THEN conjunct1] by simp
  then have nul: "buf ! 32 = CHR 0x00" by (simp add: alloc_str_def)
  have "\<forall>j<32. buf ! j =
              (if config_char cfg j = CHR ''s'' then val_char (bit (reg_get i ?regs) (31 - j))
               else config_char cfg j)"
    using r by (simp add: alloc_str_def)
  with ct len nul show ?thesis by (simp add: val_char_def)
qed

theorem check_mode_transformed_directive_witness:
  "xc_cpuid_check (sample_env sample_hw True 7) (3, 0) (eax_directive sample_check_directive)
     = (None, snd (xc_cpuid_check (sample_env sample_hw True 7) (3, 0)
                     (eax_directive sample_check_directive))) \<and>
   eax_directive sample_check_directive 0 = Some sample_check_directive \<and>
   (\<exists>buf. snd (xc_cpuid_check (sample_env sample_hw True 7) (3, 0)
                 (eax_directive sample_check_directive)) 0 = Some buf \<and>
          length buf = 33 \<and> buf ! 32 = CHR 0x00 \<and>
          (\<forall>j<32. buf ! j =
             (if config_char sample_check_directive j = CHR ''s''
              then (if bit (reg_get 0 (cpuid (hw_cpuid (sample_env sample_hw True 7)) (3, 0)))
                        (31 - j)
                    then CHR ''1'' else CHR ''0'')
              else config_char sample_check_directive j))) \<and>
   snd (xc_cpuid_check (sample_env sample_hw True 7) (3, 0)
          (eax_directive sample_check_directive)) 0
     = Some (''0000xxxx000000000000000011111111'' @ [CHR 0x00])"
proof -
  have "fst (xc_cpuid_check (sample_env sample_hw True 7) (3, 0)
               (eax_directive sample_check_directive)) = None"
    by code_simp
  then have h1: "xc_cpuid_check (sample_env sample_hw True 7) (3, 0)
                   (eax_directive sample_check_directive)
     = (None, snd (xc_cpuid_check (sample_env sample_hw True 7) (3, 0)
                     (eax_directive sample_check_directive)))"
    by (metis prod.collapse)
  have h2: "eax_directive sample_check_directive 0 = Some sample_check_directive"
    by (simp add: eax_directive_def)
  have v: "snd (xc_cpuid_check (sample_env sample_hw True 7) (3, 0)
          (eax_directive sample_check_directive)) 0
     = Some (''0000xxxx000000000000000011111111'' @ [CHR 0x00])"
    by code_simp
  from h1 h2 v check_mode_transformed_directive [OF h1 _ h2] show ?thesis by simp
qed

text \<open>
  Claim C5, as amended. Check mode never returns \<^verbatim>\<open>EINVAL\<close>. When every output string
  can be allocated, it returns 0 if at every position of every directive present the
  character is \<open>1\<close> over a raw hardware bit 1, \<open>0\<close> over a raw hardware bit 0, \<open>x\<close>,
  \<open>s\<close>, or the NUL that \<^verbatim>\<open>strchr\<close> finds at the end of its alphabet; otherwise it
  returns \<^verbatim>\<open>EPERM\<close>, for a mismatch and for a character outside the alphabet alike.
  Only the raw hardware quadruple is consulted.
\<close>

theorem check_mode_validation:
  "fst (xc_cpuid_check e input config) \<noteq> Some EINVAL \<and>
   ((\<forall>i<4. config i \<noteq> None \<longrightarrow> alloc_str_ok e i) \<longrightarrow>
      fst (xc_cpuid_check e input config) =
        (if \<forall>i<4. \<forall>cfg. config i = Some cfg \<longrightarrow>
              (\<forall>j<32. (config_char cfg j = CHR ''1'' \<and>
                          bit (reg_get i (cpuid (hw_cpuid e) input)) (31 - j)) \<or>
                       (config_char cfg j = CHR ''0'' \<and>
                          \<not> bit (reg_get i (cpuid (hw_cpuid e) input)) (31 - j)) \<or>
                       config_char cfg j = CHR ''x'' \<or> config_char cfg j = CHR ''s'' \<or>
                       config_char cfg j = CHR 0x00)
         then None else Some EPERM))"
proof -
  let ?regs = "cpuid (hw_cpuid e) input"
  obtain rc ct where cr: "check_regs e ?regs config 0 Map.empty = (rc, ct)"
    by (cases "check_regs e ?regs config 0 Map.empty") auto
  have rc: "fst (xc_cpuid_check e input config) = rc"
    unfolding xc_cpuid_check_eq cr by (simp split: option.splits)
  note r = check_regs_result [OF cr]
  have three: "rc = None \<or> rc = Some ENOMEM \<or> rc = Some EPERM" using r by blast
  have ok_all: "\<forall>i<4. \<forall>cfg. config i = Some cfg \<longrightarrow> fst (check_bits (reg_get i ?regs) cfg 0 alloc_str)"
    if "rc = None"
  proof (intro allI impI)
    fix i cfg assume "i < 4" "config i = Some cfg"
    with r that obtain buf where "check_bits (reg_get i ?regs) cfg 0 alloc_str = (True, buf)"
      by blast
    then show "fst (check_bits (reg_get i ?regs) cfg 0 alloc_str)" by simp
  qed
  have bad_one: "\<exists>i<4. \<exists>cfg. config i = Some cfg \<and> \<not> fst (check_bits (reg_get i ?regs) cfg 0 alloc_str)"
    if "rc = Some EPERM"
    using r that by blast
  have nomem: "\<exists>i<4. config i \<noteq> None \<and> \<not> alloc_str_ok e i" if "rc = Some ENOMEM"
    using r that by blast
  have a: "rc \<noteq> Some EINVAL" using three by auto
  have b: "rc = (if \<forall>i<4. \<forall>cfg. config i = Some cfg \<longrightarrow>
                    fst (check_bits (reg_get i ?regs) cfg 0 alloc_str)
                 then None else Some EPERM)"
    if "\<forall>i<4. config i \<noteq> None \<longrightarrow> alloc_str_ok e i"
    using three ok_all bad_one nomem that by (auto split: if_splits)
  show ?thesis
    unfolding rc using a b by (simp only: check_bits_accepts) blast
qed

theorem check_mode_validation_witness:
  "alloc_str_ok (sample_env sample_hw True 7) 0 \<and>
   fst (xc_cpuid_check (sample_env sample_hw True 7) (3, 0) (eax_directive ''k''))
     = Some EPERM \<and>
   \<not> (\<forall>i<4. \<forall>cfg. eax_directive ''k'' i = Some cfg \<longrightarrow>
         (\<forall>j<32. (config_char cfg j = CHR ''1'' \<and>
                     bit (reg_get i (cpuid (hw_cpuid (sample_env sample_hw True 7)) (3, 0)))
                       (31 - j)) \<or>
                  (config_char cfg j = CHR ''0'' \<and>
                     \<not> bit (reg_get i (cpuid (hw_cpuid (sample_env sample_hw True 7)) (3, 0)))
                         (31 - j)) \<or>
                  config_char cfg j = CHR ''x'' \<or> config_char cfg j = CHR ''s'' \<or>
                  config_char cfg j = CHR 0x00))"
proof -
  have a: "\<forall>i<4. eax_directive ''k'' i \<noteq> None \<longrightarrow> alloc_str_ok (sample_env sample_hw True 7) i"
    by (simp add: sample_env_def)
  have v: "fst (xc_cpuid_check (sample_env sample_hw True 7) (3, 0) (eax_directive ''k''))
             = Some EPERM"
    by code_simp
  from check_mode_validation [of "sample_env sample_hw True 7" "(3, 0)" "eax_directive ''k''"] a
  have "fst (xc_cpuid_check (sample_env sample_hw True 7) (3, 0) (eax_directive ''k'')) =
        (if \<forall>i<4. \<forall>cfg. eax_directive ''k'' i = Some cfg \<longrightarrow>
              (\<forall>j<32. (config_char cfg j = CHR ''1'' \<and>
                          bit (reg_get i (cpuid (hw_cpuid (sample_env sample_hw True 7)) (3, 0)))
                            (31 - j)) \<or>
                       (config_char cfg j = CHR ''0'' \<and>
                          \<not> bit (reg_get i (cpuid (hw_cpuid (sample_env sample_hw True 7)) (3, 0)))
                              (31 - j)) \<or>
                       config_char cfg j = CHR ''x'' \<or> config_char cfg j = CHR ''s'' \<or>
                       config_char cfg j = CHR 0x00)
         then None else Some EPERM)"
    by blast
  with v have "\<not> (\<forall>i<4. \<forall>cfg. eax_directive ''k'' i = Some cfg \<longrightarrow>
         (\<forall>j<32. (config_char cfg j = CHR ''1'' \<and>
                     bit (reg_get i (cpuid (hw_cpuid (sample_env sample_hw True 7)) (3, 0)))
                       (31 - j)) \<or>
                  (config_char cfg j = CHR ''0'' \<and>
                     \<not> bit (reg_get i (cpuid (hw_cpuid (sample_env sample_hw True 7)) (3, 0)))
                         (31 - j)) \<or>
                  config_char cfg j = CHR ''x'' \<or> config_char cfg j = CHR ''s'' \<or>
                  config_char cfg j = CHR 0x00))"
    by (simp split: if_splits)
  moreover have "alloc_str_ok (sample_env sample_hw True 7) 0" by (simp add: sample_env_def)
  ultimately show ?thesis using v by blast
qed

text \<open>
  Claim C5 as the specification words it: a directive whose first character is \<open>k\<close>,
  which is outside the check alphabet, is refused with \<^verbatim>\<open>EPERM\<close>, not \<^verbatim>\<open>EINVAL\<close>.
\<close>

theorem check_mode_invalid_char_counterexample:
  "config_char ''kxxxxxxxxxxxxxxxxxxxxxxxxxxxxxxx'' 0 = CHR ''k'' \<and>
   fst (xc_cpuid_check (sample_env sample_hw True 7) (3, 0)
          (eax_directive ''kxxxxxxxxxxxxxxxxxxxxxxxxxxxxxxx'')) = Some EPERM \<and>
   fst (xc_cpuid_check (sample_env sample_hw True 7) (3, 0)
          (eax_directive ''kxxxxxxxxxxxxxxxxxxxxxxxxxxxxxxx'')) \<noteq> Some EINVAL"
  by code_simp

text \<open>
  Claim C6. Whenever check mode or set mode fails, for whatever reason (an expectation
  violated, a character outside the alphabet, an allocation failure, the domain context
  not resolved, the programming call refused), all four output pointers are null when it
  returns; whenever it succeeds, the output pointers that are not null are exactly those
  of the registers that have a directive. The caller never receives a partial set.
\<close>

theorem directive_outputs_all_or_nothing:
  "(fst (xc_cpuid_check e input config) \<noteq> None \<longrightarrow>
      (\<forall>i. snd (xc_cpuid_check e input config) i = None)) \<and>
   (fst (xc_cpuid_check e input config) = None \<longrightarrow>
      (\<forall>i. snd (xc_cpuid_check e input config) i \<noteq> None \<longleftrightarrow> i < 4 \<and> config i \<noteq> None)) \<and>
   (fst (xc_cpuid_set fv n e domid input config) \<noteq> None \<longrightarrow>
      (\<forall>i. fst (snd (xc_cpuid_set fv n e domid input config)) i = None)) \<and>
   (fst (xc_cpuid_set fv n e domid input config) = None \<longrightarrow>
      (\<forall>i. fst (snd (xc_cpuid_set fv n e domid input config)) i \<noteq> None \<longleftrightarrow>
           i < 4 \<and> config i \<noteq> None))"
  using check_outputs_all_or_nothing [of e input config]
    set_outputs_all_or_nothing [of fv n e domid input config]
  by blast

theorem directive_outputs_all_or_nothing_witness:
  "fst (xc_cpuid_check (sample_env sample_hw True 7) (3, 0) (eax_directive ''1'')) = Some EPERM \<and>
   (\<forall>i. snd (xc_cpuid_check (sample_env sample_hw True 7) (3, 0) (eax_directive ''1'')) i = None) \<and>
   fst (xc_cpuid_check (sample_env sample_hw True 7) (3, 0)
          (eax_directive sample_check_directive)) = None \<and>
   (\<forall>i. snd (xc_cpuid_check (sample_env sample_hw True 7) (3, 0)
               (eax_directive sample_check_directive)) i \<noteq> None \<longleftrightarrow> i = 0) \<and>
   fst (xc_cpuid_set sample_fv 2 (sample_env sample_hw True 7) 0 (3, 0)
          (eax_directive ''1q'')) = Some EINVAL \<and>
   (\<forall>i. fst (snd (xc_cpuid_set sample_fv 2 (sample_env sample_hw True 7) 0 (3, 0)
                     (eax_directive ''1q''))) i = None) \<and>
   fst (xc_cpuid_set sample_fv 2 (sample_env sample_hw True 7) 0 (3, 0)
          (eax_directive sample_set_directive)) = None \<and>
   (\<forall>i. fst (snd (xc_cpuid_set sample_fv 2 (sample_env sample_hw True 7) 0 (3, 0)
                     (eax_directive sample_set_directive))) i \<noteq> None \<longleftrightarrow> i = 0)"
proof -
  have c1: "fst (xc_cpuid_check (sample_env sample_hw True 7) (3, 0) (eax_directive ''1''))
              = Some EPERM"
    by code_simp
  have c2: "fst (xc_cpuid_check (sample_env sample_hw True 7) (3, 0)
                   (eax_directive sample_check_directive)) = None"
    by code_simp
  have s1: "fst (xc_cpuid_set sample_fv 2 (sample_env sample_hw True 7) 0 (3, 0)
                   (eax_directive ''1q'')) = Some EINVAL"
    by code_simp
  have s2: "fst (xc_cpuid_set sample_fv 2 (sample_env sample_hw True 7) 0 (3, 0)
                   (eax_directive sample_set_directive)) = None"
    by code_simp
  have d: "i < 4 \<and> eax_directive d i \<noteq> None \<longleftrightarrow> i = 0" for i d
    by (auto simp add: eax_directive_def)
  note t = directive_outputs_all_or_nothing [where e = "sample_env sample_hw True 7"
      and input = "(3, 0)" and fv = sample_fv and n = 2 and domid = 0]
  have w1: "\<forall>i. snd (xc_cpuid_check (sample_env sample_hw True 7) (3, 0)
                     (eax_directive ''1'')) i = None"
    using t [of "eax_directive ''1''"] c1 by simp
  have "\<forall>i. snd (xc_cpuid_check (sample_env sample_hw True 7) (3, 0)
               (eax_directive sample_check_directive)) i \<noteq> None \<longleftrightarrow>
            i < 4 \<and> eax_directive sample_check_directive i \<noteq> None"
    using t [of "eax_directive sample_check_directive"] c2 by blast
  then have w2: "\<forall>i. snd (xc_cpuid_check (sample_env sample_hw True 7) (3, 0)
               (eax_directive sample_check_directive)) i \<noteq> None \<longleftrightarrow> i = 0"
    unfolding d .
  have w3: "\<forall>i. fst (snd (xc_cpuid_set sample_fv 2 (sample_env sample_hw True 7) 0 (3, 0)
                     (eax_directive ''1q''))) i = None"
    using t [of "eax_directive ''1q''"] s1 by simp
  have "\<forall>i. fst (snd (xc_cpuid_set sample_fv 2 (sample_env sample_hw True 7) 0 (3, 0)
                     (eax_directive sample_set_directive))) i \<noteq> None \<longleftrightarrow>
            i < 4 \<and> eax_directive sample_set_directive i \<noteq> None"
    using t [of "eax_directive sample_set_directive"] s2 by blast
  then have w4: "\<forall>i. fst (snd (xc_cpuid_set sample_fv 2 (sample_env sample_hw True 7) 0 (3, 0)
                     (eax_directive sample_set_directive))) i \<noteq> None \<longleftrightarrow> i = 0"
    unfolding d .
  from c1 w1 c2 w2 s1 w3 s2 w4 show ?thesis by blast
qed

text \<open>
  Claim C1, as amended. When set mode succeeds it hands exactly one quadruple to the
  programming call. In it, a register without a directive is the policy engine's
  register; in a register with a directive, at every position, \<open>1\<close> gives bit 1, \<open>0\<close>
  gives bit 0, \<open>x\<close> gives the policy engine's bit, \<open>k\<close> gives the raw hardware bit, and
  \<open>s\<close> gives the raw hardware bit as well (index 0 is bit 31).
\<close>

theorem set_mode_applied_bits:
  assumes "get_cpuid_domain_info n e domid None 0 = Inr info"
    and "xc_cpuid_set fv n e domid input config = (None, ct, calls)"
  shows "\<exists>prog. calls = [(input, prog)] \<and>
     (\<forall>i<4.
        (config i = None \<longrightarrow>
           reg_get i prog =
             reg_get i (xc_cpuid_policy fv (hw_cpuid e) info input (cpuid (hw_cpuid e) input))) \<and>
        (\<forall>cfg. config i = Some cfg \<longrightarrow>
           (\<forall>j<32.
              (config_char cfg j = CHR ''1'' \<longrightarrow> bit (reg_get i prog) (31 - j)) \<and>
              (config_char cfg j = CHR ''0'' \<longrightarrow> \<not> bit (reg_get i prog) (31 - j)) \<and>
              (config_char cfg j = CHR ''x'' \<longrightarrow>
                 bit (reg_get i prog) (31 - j) =
                 bit (reg_get i (xc_cpuid_policy fv (hw_cpuid e) info input
                                   (cpuid (hw_cpuid e) input))) (31 - j)) \<and>
              (config_char cfg j = CHR ''k'' \<longrightarrow>
                 bit (reg_get i prog) (31 - j) =
                 bit (reg_get i (cpuid (hw_cpuid e) input)) (31 - j)) \<and>
              (config_char cfg j = CHR ''s'' \<longrightarrow>
                 bit (reg_get i prog) (31 - j) =
                 bit (reg_get i (cpuid (hw_cpuid e) input)) (31 - j)))))"
proof -
  let ?raw = "cpuid (hw_cpuid e) input"
  let ?pol = "xc_cpuid_policy fv (hw_cpuid e) info input ?raw"
  obtain rc prog ct1 where sr: "set_regs e ?pol config 0 ?raw Map.empty = (rc, prog, ct1)"
    by (cases "set_regs e ?pol config 0 ?raw Map.empty") auto
  have rc: "rc = None" and calls: "calls = [(input, prog)]"
    using assms(2) unfolding xc_cpuid_set_Inr [OF assms(1)] sr
    by (auto split: option.splits if_splits)
  note r = set_regs_result [OF sr]
  have body: "(config i = None \<longrightarrow> reg_get i prog = reg_get i ?pol) \<and>
        (\<forall>cfg. config i = Some cfg \<longrightarrow>
           (\<forall>j<32.
              (config_char cfg j = CHR ''1'' \<longrightarrow> bit (reg_get i prog) (31 - j)) \<and>
              (config_char cfg j = CHR ''0'' \<longrightarrow> \<not> bit (reg_get i prog) (31 - j)) \<and>
              (config_char cfg j = CHR ''x'' \<longrightarrow>
                 bit (reg_get i prog) (31 - j) = bit (reg_get i ?pol) (31 - j)) \<and>
              (config_char cfg j = CHR ''k'' \<longrightarrow>
                 bit (reg_get i prog) (31 - j) = bit (reg_get i ?raw) (31 - j)) \<and>
              (config_char cfg j = CHR ''s'' \<longrightarrow>
                 bit (reg_get i prog) (31 - j) = bit (reg_get i ?raw) (31 - j))))"
    if i: "i < 4" for i
  proof -
    from r rc i have q: "(config i = None \<longrightarrow> ct1 i = Map.empty i \<and> reg_get i prog = reg_get i ?pol) \<and>
         (\<forall>cfg. config i = Some cfg \<longrightarrow> alloc_str_ok e i \<and>
            (\<exists>buf. set_bits (reg_get i ?pol) cfg 0 (reg_get i ?raw) alloc_str
                     = (True, reg_get i prog, buf) \<and> ct1 i = Some buf))"
      by blast
    have bits: "bit (reg_get i prog) (31 - j) \<longleftrightarrow>
           (if config_char cfg j = CHR ''1'' then True
            else if config_char cfg j = CHR ''0'' then False
            else if config_char cfg j = CHR ''x'' then bit (reg_get i ?pol) (31 - j)
            else bit (reg_get i ?raw) (31 - j))"
      if c: "config i = Some cfg" and j: "j < 32" for cfg j
    proof -
      from q c obtain buf where
        sb: "set_bits (reg_get i ?pol) cfg 0 (reg_get i ?raw) alloc_str = (True, reg_get i prog, buf)"
        by blast
      show ?thesis using set_bits_result [OF sb] j by simp
    qed
    have none: "config i = None \<longrightarrow> reg_get i prog = reg_get i ?pol" using q by simp
    show ?thesis using none by (simp add: bits)
  qed
  from calls body show ?thesis by blast
qed

theorem set_mode_applied_bits_witness:
  "get_cpuid_domain_info 2 (sample_env sample_hw True 7) 0 None 0
     = Inr (sample_info VENDOR_UNKNOWN True 7) \<and>
   fst (xc_cpuid_set sample_fv 2 (sample_env sample_hw True 7) 0 (3, 0)
          (eax_directive sample_set_directive)) = None \<and>
   (\<exists>prog. snd (snd (xc_cpuid_set sample_fv 2 (sample_env sample_hw True 7) 0 (3, 0)
                        (eax_directive sample_set_directive))) = [((3, 0), prog)] \<and>
           ebx prog = 0 \<and> bit (eax prog) 31 \<and> \<not> bit (eax prog) 30 \<and> \<not> bit (eax prog) 29 \<and>
           bit (eax prog) 1 \<and> bit (eax prog) 0)"
proof -
  let ?e = "sample_env sample_hw True 7"
  let ?r = "xc_cpuid_set sample_fv 2 ?e 0 (3, 0) (eax_directive sample_set_directive)"
  have h1: "get_cpuid_domain_info 2 ?e 0 None 0 = Inr (sample_info VENDOR_UNKNOWN True 7)"
    by (rule sample_env_resolves)
  have ok: "fst ?r = None" by code_simp
  then have h2: "?r = (None, fst (snd ?r), snd (snd ?r))" by (metis prod.collapse)
  have raw: "cpuid (hw_cpuid ?e) (3, 0) = sample_raw"
    by (simp add: cpuid_def sample_env_def sample_hw_def)
  have pol: "xc_cpuid_policy sample_fv (hw_cpuid ?e) (sample_info VENDOR_UNKNOWN True 7) (3, 0)
               sample_raw = zero_regs"
    by (simp add: xc_cpuid_policy_def xc_cpuid_hvm_policy_def hvm_leaf_switch_def
        intel_xc_cpuid_policy_def hvm_passthrough_leaves_def sample_info_def zero_regs_def
        Let_def)
  have d: "eax_directive sample_set_directive 0 = Some sample_set_directive"
    "eax_directive sample_set_directive 1 = None"
    by (simp_all add: eax_directive_def)
  have c: "config_char sample_set_directive 0 = CHR ''1''"
    "config_char sample_set_directive 1 = CHR ''0''"
    "config_char sample_set_directive 2 = CHR ''x''"
    "config_char sample_set_directive 30 = CHR ''k''"
    "config_char sample_set_directive 31 = CHR ''s''"
    by (simp_all add: config_char_def sample_set_directive_def)
  from set_mode_applied_bits [OF h1 h2] obtain prog where
    calls: "snd (snd ?r) = [((3, 0), prog)]" and
    bits: "\<forall>i<4.
        (eax_directive sample_set_directive i = None \<longrightarrow>
           reg_get i prog =
             reg_get i (xc_cpuid_policy sample_fv (hw_cpuid ?e)
                          (sample_info VENDOR_UNKNOWN True 7) (3, 0) (cpuid (hw_cpuid ?e) (3, 0)))) \<and>
        (\<forall>cfg. eax_directive sample_set_directive i = Some cfg \<longrightarrow>
           (\<forall>j<32.
              (config_char cfg j = CHR ''1'' \<longrightarrow> bit (reg_get i prog) (31 - j)) \<and>
              (config_char cfg j = CHR ''0'' \<longrightarrow> \<not> bit (reg_get i prog) (31 - j)) \<and>
              (config_char cfg j = CHR ''x'' \<longrightarrow>
                 bit (reg_get i prog) (31 - j) =
                 bit (reg_get i (xc_cpuid_policy sample_fv (hw_cpuid ?e)
                                   (sample_info VENDOR_UNKNOWN True 7) (3, 0)
                                   (cpuid (hw_cpuid ?e) (3, 0)))) (31 - j)) \<and>
              (config_char cfg j = CHR ''k'' \<longrightarrow>
                 bit (reg_get i prog) (31 - j) =
                 bit (reg_get i (cpuid (hw_cpuid ?e) (3, 0))) (31 - j)) \<and>
              (config_char cfg j = CHR ''s'' \<longrightarrow>
                 bit (reg_get i prog) (31 - j) =
                 bit (reg_get i (cpuid (hw_cpuid ?e) (3, 0))) (31 - j))))"
    by blast
  have b1: "ebx prog = 0"
    using bits [THEN spec, of 1] d(2) by (simp add: raw pol reg_get_def zero_regs_def)
  have row: "\<forall>j<32.
              (config_char sample_set_directive j = CHR ''1'' \<longrightarrow> bit (eax prog) (31 - j)) \<and>
              (config_char sample_set_directive j = CHR ''0'' \<longrightarrow> \<not> bit (eax prog) (31 - j)) \<and>
              (config_char sample_set_directive j = CHR ''x'' \<longrightarrow>
                 bit (eax prog) (31 - j) = bit (eax zero_regs) (31 - j)) \<and>
              (config_char sample_set_directive j = CHR ''k'' \<longrightarrow>
                 bit (eax prog) (31 - j) = bit (eax sample_raw) (31 - j)) \<and>
              (config_char sample_set_directive j = CHR ''s'' \<longrightarrow>
                 bit (eax prog) (31 - j) = bit (eax sample_raw) (31 - j))"
    using bits [THEN spec, of 0] d(1) by (simp add: raw pol reg_get_def)
  have r0: "bit (eax sample_raw) 0" "bit (eax sample_raw) 1" "\<not> bit (eax zero_regs) 29"
    by (simp_all add: sample_raw_def zero_regs_def)
  have "bit (eax prog) 31" using row [rule_format, of 0] c by simp
  moreover have "\<not> bit (eax prog) 30" using row [rule_format, of 1] c by simp
  moreover have "\<not> bit (eax prog) 29" using row [rule_format, of 2] c r0 by simp
  moreover have "bit (eax prog) 1" using row [rule_format, of 30] c r0 by simp
  moreover have "bit (eax prog) 0" using row [rule_format, of 31] c r0 by simp
  ultimately show ?thesis using h1 ok calls b1 by blast
qed

text \<open>
  Claim C1 as the specification words it: with \<open>s\<close> at all 32 positions of the eax
  directive, the policy engine computes eax = 0 for leaf 3 of an HVM domain, and the
  quadruple programmed carries the raw hardware eax, \<^verbatim>\<open>0xff\<close>.
\<close>

theorem set_mode_sticky_counterexample:
  "get_cpuid_domain_info 2 (sample_env sample_hw True 7) 0 None 0
     = Inr (sample_info VENDOR_UNKNOWN True 7) \<and>
   cpuid (hw_cpuid (sample_env sample_hw True 7)) (3, 0) = sample_raw \<and>
   eax sample_raw = 0xff \<and>
   eax (xc_cpuid_policy sample_fv (hw_cpuid (sample_env sample_hw True 7))
          (sample_info VENDOR_UNKNOWN True 7) (3, 0) sample_raw) = 0 \<and>
   xc_cpuid_set sample_fv 2 (sample_env sample_hw True 7) 0 (3, 0)
       (eax_directive ''ssssssssssssssssssssssssssssssss'')
     = (None, fst (snd (xc_cpuid_set sample_fv 2 (sample_env sample_hw True 7) 0 (3, 0)
                          (eax_directive ''ssssssssssssssssssssssssssssssss''))),
        [((3, 0), \<lparr>eax = 0xff, ebx = 0, ecx = 0, edx = 0\<rparr>)])"
proof -
  let ?e = "sample_env sample_hw True 7"
  let ?r = "xc_cpuid_set sample_fv 2 ?e 0 (3, 0)
              (eax_directive ''ssssssssssssssssssssssssssssssss'')"
  have h1: "get_cpuid_domain_info 2 ?e 0 None 0 = Inr (sample_info VENDOR_UNKNOWN True 7)"
    by (rule sample_env_resolves)
  have raw: "cpuid (hw_cpuid ?e) (3, 0) = sample_raw"
    by (simp add: cpuid_def sample_env_def sample_hw_def)
  have pol: "eax (xc_cpuid_policy sample_fv (hw_cpuid ?e) (sample_info VENDOR_UNKNOWN True 7)
                    (3, 0) sample_raw) = 0"
    by (simp add: xc_cpuid_policy_def xc_cpuid_hvm_policy_def hvm_leaf_switch_def
        intel_xc_cpuid_policy_def hvm_passthrough_leaves_def sample_info_def Let_def)
  have a: "fst ?r = None" by code_simp
  have b: "snd (snd ?r) = [((3, 0), \<lparr>eax = 0xff, ebx = 0, ecx = 0, edx = 0\<rparr>)]" by code_simp
  from a b have "?r = (None, fst (snd ?r), [((3, 0), \<lparr>eax = 0xff, ebx = 0, ecx = 0, edx = 0\<rparr>)])"
    by (metis prod.collapse)
  with h1 raw pol show ?thesis by (simp add: sample_raw_def)
qed

text \<open>
  Claim C7, what the code does in its place. When set mode succeeds, every register that has
  a directive receives a 33-byte output string, NUL-terminated, that holds \<open>1\<close> or \<open>0\<close>
  according to the bit programmed wherever the directive holds \<open>s\<close>, and the
  directive's own character everywhere else: \<open>0\<close>, \<open>1\<close> and \<open>k\<close> are echoed, and so
  is \<open>x\<close>, which the claim and the comment above \<^verbatim>\<open>xc_cpuid_set\<close> say is replaced by
  the bit applied.
\<close>

theorem set_mode_transformed_directive:
  assumes "get_cpuid_domain_info n e domid None 0 = Inr info"
    and "xc_cpuid_set fv n e domid input config = (None, ct, calls)"
    and "i < 4" "config i = Some cfg"
  shows "\<exists>buf prog. ct i = Some buf \<and> calls = [(input, prog)] \<and> length buf = 33 \<and>
           buf ! 32 = CHR 0x00 \<and>
           (\<forall>j<32. buf ! j =
              (if config_char cfg j = CHR ''s''
               then (if bit (reg_get i prog) (31 - j) then CHR ''1'' else CHR ''0'')
               else config_char cfg j))"
proof -
  let ?raw = "cpuid (hw_cpuid e) input"
  let ?pol = "xc_cpuid_policy fv (hw_cpuid e) info input ?raw"
  obtain rc prog ct1 where sr: "set_regs e ?pol config 0 ?raw Map.empty = (rc, prog, ct1)"
    by (cases "set_regs e ?pol config 0 ?raw Map.empty") auto
  have rc: "rc = None" and calls: "calls = [(input, prog)]" and ct: "ct = ct1"
    using assms(2) unfolding xc_cpuid_set_Inr [OF assms(1)] sr
    by (auto split: option.splits if_splits)
  note r = set_regs_result [OF sr]
  from r rc assms(3,4) obtain buf where
    sb: "set_bits (reg_get i ?pol) cfg 0 (reg_get i ?raw) alloc_str = (True, reg_get i prog, buf)"
    and b: "ct1 i = Some buf"
    by blast
  note s = set_bits_result [OF sb]
  have len: "length buf = 33" using s by (simp add: alloc_str_def)
  have "buf ! 32 = alloc_str ! 32"
    using s [THEN conjunct2, THEN conjunct2, THEN conjunct1] by simp
  then have nul: "buf ! 32 = CHR 0x00" by (simp add: alloc_str_def)
  have chars: "buf ! j =
              (if config_char cfg j = CHR ''s''
               then (if bit (reg_get i prog) (31 - j) then CHR ''1'' else CHR ''0'')
               else config_char cfg j)" if j: "j < 32" for j
  proof -
    have "bit (reg_get i prog) (31 - j) \<longleftrightarrow>
           (if config_char cfg j = CHR ''1'' then True
            else if config_char cfg j = CHR ''0'' then False
            else if config_char cfg j = CHR ''x'' then bit (reg_get i ?pol) (31 - j)
            else bit (reg_get i ?raw) (31 - j))"
      and "buf ! j = (if config_char cfg j = CHR ''s''
                      then val_char (bit (reg_get i ?raw) (31 - j)) else config_char cfg j)"
      using s j by (simp_all add: alloc_str_def)
    then show ?thesis by (simp add: val_char_def)
  qed
  from b ct calls len nul chars show ?thesis by blast
qed

text \<open>
  The input where the code departs from claim C7: with \<open>x\<close> at all 32 positions of the
  eax directive, set mode succeeds, programs eax = 0, and returns the directive unchanged,
  32 times \<open>x\<close>, not 32 times \<open>0\<close>.
\<close>

theorem set_mode_transformed_directive_witness:
  "fst (xc_cpuid_set sample_fv 2 (sample_env sample_hw True 7) 0 (3, 0)
          (eax_directive ''xxxxxxxxxxxxxxxxxxxxxxxxxxxxxxxx'')) = None \<and>
   snd (snd (xc_cpuid_set sample_fv 2 (sample_env sample_hw True 7) 0 (3, 0)
               (eax_directive ''xxxxxxxxxxxxxxxxxxxxxxxxxxxxxxxx'')))
     = [((3, 0), \<lparr>eax = 0, ebx = 0, ecx = 0, edx = 0\<rparr>)] \<and>
   fst (snd (xc_cpuid_set sample_fv 2 (sample_env sample_hw True 7) 0 (3, 0)
               (eax_directive ''xxxxxxxxxxxxxxxxxxxxxxxxxxxxxxxx''))) 0
     = Some (''xxxxxxxxxxxxxxxxxxxxxxxxxxxxxxxx'' @ [CHR 0x00]) \<and>
   (\<exists>buf. fst (snd (xc_cpuid_set sample_fv 2 (sample_env sample_hw True 7) 0 (3, 0)
                       (eax_directive ''xxxxxxxxxxxxxxxxxxxxxxxxxxxxxxxx''))) 0 = Some buf \<and>
          buf ! 0 = CHR ''x'' \<and> buf ! 31 = CHR ''x'')"
proof -
  let ?e = "sample_env sample_hw True 7"
  let ?d = "''xxxxxxxxxxxxxxxxxxxxxxxxxxxxxxxx''"
  let ?r = "xc_cpuid_set sample_fv 2 ?e 0 (3, 0) (eax_directive ?d)"
  have h1: "get_cpuid_domain_info 2 ?e 0 None 0 = Inr (sample_info VENDOR_UNKNOWN True 7)"
    by (rule sample_env_resolves)
  have a: "fst ?r = None" by code_simp
  have b: "snd (snd ?r) = [((3, 0), \<lparr>eax = 0, ebx = 0, ecx = 0, edx = 0\<rparr>)]" by code_simp
  have c: "fst (snd ?r) 0 = Some (?d @ [CHR 0x00])" by code_simp
  from a have h2: "?r = (None, fst (snd ?r), snd (snd ?r))" by (metis prod.collapse)
  have d: "eax_directive ?d 0 = Some ?d" by (simp add: eax_directive_def)
  have k: "config_char ?d 0 = CHR ''x''" "config_char ?d 31 = CHR ''x''"
    by (simp_all add: config_char_def)
  from set_mode_transformed_directive [OF h1 h2 _ d] obtain buf prog where
    buf: "fst (snd ?r) 0 = Some buf" and
    chars: "\<forall>j<32. buf ! j =
              (if config_char ?d j = CHR ''s''
               then (if bit (reg_get 0 prog) (31 - j) then CHR ''1'' else CHR ''0'')
               else config_char ?d j)"
    by auto
  have "buf ! 0 = CHR ''x''" using chars [THEN spec, of 0] k by simp
  moreover have "buf ! 31 = CHR ''x''" using chars [THEN spec, of 31] k by simp
  ultimately show ?thesis using a b c buf by blast
qed

section \<open>Properties of the domain context resolver\<close>

lemma truncated_bits_set_past_end:
  "host_nr_features \<le> i \<Longrightarrow> \<not> truncated_bits_set fs i host_nr_features"
  by (subst truncated_bits_set.simps) simp

text \<open>
  Claim C3, what the code does in its place. When the caller's feature set is at least as
  long as the host's, resolution never fails with \<^verbatim>\<open>EOPNOTSUPP\<close>, whatever the entries
  beyond the host count hold: the loop under the comment \<^verbatim>\<open>Check for truncated set bits\<close>
  runs from the caller's length up to the host's, so for such a set it does not run. The
  claim, like that comment, asks for \<^verbatim>\<open>EOPNOTSUPP\<close> when an entry beyond the host count is
  nonzero.
\<close>

theorem longer_featureset_never_unsupported:
  "n \<le> nr_fset \<Longrightarrow> get_cpuid_domain_info n e domid (Some fs) nr_fset \<noteq> Inl EOPNOTSUPP"
  by (simp add: get_cpuid_domain_info_def Let_def truncated_bits_set_past_end
      split: prod.splits)

text \<open>
  The input where the code departs from claim C3: the host has two feature-set words,
  the caller supplies three and the third is 5. Resolution succeeds, with the two host
  words copied and the third dropped unexamined.
\<close>

theorem longer_featureset_never_unsupported_witness:
  "sample_featureset 2 = 5 \<and>
   get_cpuid_domain_info 2 (sample_env sample_hw True 7) 0 (Some sample_featureset) 3
     = Inr (sample_info VENDOR_UNKNOWN True 7) \<and>
   get_cpuid_domain_info 2 (sample_env sample_hw True 7) 0 (Some sample_featureset) 3
     \<noteq> Inl EOPNOTSUPP"
proof -
  have a: "sample_featureset 2 = 5" by (simp add: sample_featureset_def)
  have b: "get_cpuid_domain_info 2 (sample_env sample_hw True 7) 0 (Some sample_featureset) 3
             = Inr (sample_info VENDOR_UNKNOWN True 7)"
    by code_simp
  have c: "(2::nat) \<le> 3" by simp
  from a b longer_featureset_never_unsupported [OF c, of "sample_env sample_hw True 7" 0
      sample_featureset]
  show ?thesis by blast
qed

section \<open>Properties of the traversal\<close>

lemma top_bit_clear_iff: "(l::u32) AND 0x80000000 = 0 \<longleftrightarrow> l < 0x80000000"
proof -
  have "(0x80000000::u32) = 2 ^ 31" by simp
  then have "l AND 0x80000000 = 0 \<longleftrightarrow> \<not> bit l 31"
    by (simp only: and_exp_eq_0_iff_not_bit)
  also have "bit l 31 \<longleftrightarrow> bit (unat l) 31"
    by (simp add: bit_unsigned_iff)
  also have "bit (unat l) 31 \<longleftrightarrow> odd (unat l div 2 ^ 31)"
    by (rule bit_iff_odd)
  also have "\<not> odd (unat l div 2 ^ 31) \<longleftrightarrow> unat l < 2 ^ 31"
  proof -
    have "unat l < 2 ^ 32" using unsigned_less [of l] by simp
    then have "unat l div 2 ^ 31 < 2" by (simp add: less_mult_imp_div_less)
    then have "unat l div 2 ^ 31 = 0 \<or> unat l div 2 ^ 31 = 1" by auto
    then show ?thesis by (auto simp add: div_eq_0_iff)
  qed
  also have "unat l < 2 ^ 31 \<longleftrightarrow> l < 0x80000000" by (simp add: word_less_nat_alt)
  finally show ?thesis .
qed

lemma amd_hvm_leaf4_eax:
  "vendor info = VENDOR_AMD \<Longrightarrow> hvm info \<Longrightarrow>
   eax (xc_cpuid_policy fv hw info (4, s) regs) = 0"
  by (simp add: xc_cpuid_policy_def xc_cpuid_hvm_policy_def hvm_leaf_switch_def
      amd_xc_cpuid_policy_def hvm_passthrough_leaves_def Let_def)

lemma unat_succ_u32:
  fixes l :: u32
  assumes "l \<le> 0x8000001c"
  shows "unat (l + 1) = unat l + 1"
proof -
  have "unat l \<le> 2147483676" using assms by (simp add: word_le_nat_alt)
  then show ?thesis by (simp add: unat_word_ariths)
qed

lemma next_leaf_cases:
  fixes l :: u32
  assumes bm: "base_max \<le> 0xd" and em: "ext_max \<le> 0x8000001c"
    and inv: "l < 0x80000000 \<or> l \<le> ext_max"
  defines "in0 \<equiv> l + 1"
  defines "in0' \<equiv> (if in0 AND 0x80000000 = 0 \<and> in0 > base_max then 0x80000000 else in0)"
  shows "unat in0 = unat l + 1"
    and "in0' = 0x80000000 \<or> (in0' = in0 \<and> (in0 < 0x80000000 \<longrightarrow> in0 \<le> base_max))"
    and "\<not> (in0' AND 0x80000000 \<noteq> 0 \<and> in0' > ext_max) \<Longrightarrow>
           in0' < 0x80000000 \<or> in0' \<le> ext_max"
proof -
  from inv em have "l \<le> 0x8000001c" by (auto simp add: word_le_nat_alt word_less_nat_alt)
  then show "unat in0 = unat l + 1" unfolding in0_def by (rule unat_succ_u32)
  show "in0' = 0x80000000 \<or> (in0' = in0 \<and> (in0 < 0x80000000 \<longrightarrow> in0 \<le> base_max))"
    unfolding in0'_def top_bit_clear_iff by auto
  show "\<not> (in0' AND 0x80000000 \<noteq> 0 \<and> in0' > ext_max) \<Longrightarrow>
           in0' < 0x80000000 \<or> in0' \<le> ext_max"
    unfolding top_bit_clear_iff by auto
qed

lemma unat_eq_numeral_iff: "(l::u32) = numeral k \<longleftrightarrow> unat l = unat (numeral k :: u32)"
  by (simp only: word_unat_eq_iff)

lemma next_input_step:
  assumes bm: "base_max \<le> 0xd" and em: "ext_max \<le> 0x8000001c"
    and inv: "fst input < 0x80000000 \<or> fst input \<le> ext_max"
    and l4: "fst input = 4 \<longrightarrow> eax regs AND 0x1f = 0"
    and nx: "next_input base_max ext_max input regs = Some input'"
  shows "(fst input' < 0x80000000 \<or> fst input' \<le> ext_max) \<and>
         iterations_left input' < iterations_left input \<and>
         (4 \<le> fst input \<longrightarrow> 4 < fst input') \<and>
         (fst input < 4 \<longrightarrow>
            input' = (4, 0) \<or> fst input' < 4 \<or> (4 < fst input' \<and> base_max < 4))"
proof -
  obtain l s where input: "input = (l, s)" by (cases input)
  define in0 where "in0 = l + 1"
  define in0' where
    "in0' = (if in0 AND 0x80000000 = 0 \<and> in0 > base_max then 0x80000000 else in0)"
  define in1' where
    "in1' = (if in0' = 4 \<or> in0' = 7 \<or> in0' = 0xd then 0 else XEN_CPUID_INPUT_UNUSED)"
  have inv': "l < 0x80000000 \<or> l \<le> ext_max" using inv input by simp
  note nl = next_leaf_cases [OF bm em inv', folded in0_def, folded in0'_def]
  have L: "unat in0 = unat l + 1" by (rule nl(1))
  have BM: "unat base_max \<le> 13" using bm by (simp add: word_le_nat_alt)
  have EM: "unat ext_max \<le> 2147483676" using em by (simp add: word_le_nat_alt)
  show ?thesis
  proof (cases "l = 0xd \<and> s < 63")
    case True
    then have "input' = (0xd, s + 1)"
      using nx input by (simp add: next_input_def Let_def)
    moreover have "unat (s + 1) = unat s + 1" "unat s < 63"
      using True by (simp_all add: word_less_nat_alt unat_word_ariths)
    ultimately show ?thesis
      using True input by (simp add: iterations_left_def)
  next
    case False
    have nx': "\<not> (in0' AND 0x80000000 \<noteq> 0 \<and> in0' > ext_max)" "input' = (in0', in1')"
      using nx input False l4
      by (auto simp add: next_input_def Let_def in0_def in0'_def in1'_def split: if_splits)
    have p1: "in0' < 0x80000000 \<or> in0' \<le> ext_max" using nl(3) nx'(1) by blast
    show ?thesis
    proof (cases "in0' = 0x80000000")
      case j: True
      have basic: "l < 0x80000000"
      proof (rule ccontr)
        assume "\<not> l < 0x80000000"
        then have "2147483648 \<le> unat l" by (simp add: word_less_nat_alt)
        with L have "\<not> in0 < 0x80000000" "in0 \<noteq> 0x80000000"
          by (auto simp add: word_less_nat_alt unat_eq_numeral_iff)
        with j show False unfolding in0'_def top_bit_clear_iff by (auto split: if_splits)
      qed
      have u: "in1' = XEN_CPUID_INPUT_UNUSED" using j by (simp add: in1'_def)
      have small: "l < 4 \<Longrightarrow> base_max < 4"
      proof -
        assume "l < 4"
        then have "unat in0 \<le> 4" using L by (simp add: word_less_nat_alt)
        then have "in0 \<noteq> 0x80000000" by (auto simp add: unat_eq_numeral_iff)
        with j have "in0 > base_max" unfolding in0'_def by (auto split: if_splits)
        with \<open>unat in0 \<le> 4\<close> show "base_max < 4" by (simp add: word_less_nat_alt)
      qed
      have il: "iterations_left input' = 29"
        using nx'(2) j by (simp add: iterations_left_def)
      have "30 \<le> iterations_left input"
        using basic input by (auto simp add: iterations_left_def)
      with il p1 nx'(2) j small input show ?thesis by auto
    next
      case nj: False
      with nl(2) have k: "in0' = in0 \<and> (in0 < 0x80000000 \<longrightarrow> in0 \<le> base_max)" by blast
      show ?thesis
      proof (cases "in0 < 0x80000000")
        case True
        with k have le: "unat in0 \<le> unat base_max" by (simp add: word_le_nat_alt)
        with BM L have Ll: "unat l + 1 \<le> 13" by simp
        then have lb: "l < 0x80000000" "l \<noteq> 0xd"
          by (auto simp add: word_less_nat_alt unat_eq_numeral_iff)
        have il0: "iterations_left input = 95 + (13 - unat l)"
          using lb input by (simp add: iterations_left_def)
        have il1: "iterations_left input' < 95 + (13 - unat l)"
        proof (cases "in0 = 0xd")
          case True
          then have "in1' = 0" using k by (simp add: in1'_def)
          with True k nx'(2) have "iterations_left input' = 94"
            by (simp add: iterations_left_def)
          with Ll show ?thesis by simp
        next
          case False
          with True k nx'(2) have "iterations_left input' = 95 + (13 - unat in0)"
            by (simp add: iterations_left_def)
          with L Ll show ?thesis by simp
        qed
        have p3: "4 \<le> l \<longrightarrow> 4 < in0"
          using L by (simp add: word_less_nat_alt word_le_nat_alt)
        have p4: "l < 4 \<longrightarrow> (in0 = 4 \<and> in1' = 0) \<or> in0 < 4"
        proof
          assume "l < 4"
          then have "unat in0 \<le> 4" using L by (simp add: word_less_nat_alt)
          then have "in0 = 4 \<or> in0 < 4"
            by (auto simp add: word_less_nat_alt unat_eq_numeral_iff)
          then show "(in0 = 4 \<and> in1' = 0) \<or> in0 < 4" using k by (auto simp add: in1'_def)
        qed
        from p1 il0 il1 p3 p4 k nx'(2) input show ?thesis by auto
      next
        case False
        then have ext: "2147483648 \<le> unat in0" by (simp add: word_less_nat_alt)
        have lext: "\<not> l < 0x80000000"
        proof
          assume "l < 0x80000000"
          then have "unat in0 \<le> 2147483648" using L by (simp add: word_less_nat_alt)
          with ext have "in0 = 0x80000000" by (simp add: unat_eq_numeral_iff)
          with k nj show False by simp
        qed
        from p1 k False have "in0 \<le> ext_max" by simp
        then have ub: "unat l + 1 \<le> 2147483676"
          using L EM by (simp add: word_le_nat_alt)
        have il0: "iterations_left input = 2147483677 - unat l"
          using lext input by (simp add: iterations_left_def not_less)
        have il1: "iterations_left input' = 2147483677 - (unat l + 1)"
          using False k nx'(2) L by (simp add: iterations_left_def not_less)
        have p3: "4 < in0" using ext by (simp add: word_less_nat_alt)
        have p4: "\<not> l < 4" using lext by (auto simp add: word_less_nat_alt)
        from p1 il0 il1 ub p3 p4 k nx'(2) input show ?thesis by auto
      qed
    qed
  qed
qed

lemma next_input_None_small:
  assumes em: "ext_max \<le> 0x8000001c" and l: "fst input < 4"
    and nx: "next_input base_max ext_max input regs = None"
  shows "base_max < 4"
proof -
  obtain l s where input: "input = (l, s)" by (cases input)
  define in0 where "in0 = l + 1"
  from l input have l3: "unat l < 4" by (simp add: word_less_nat_alt)
  then have "l \<le> 0x8000001c" by (simp add: word_le_nat_alt)
  then have L: "unat in0 = unat l + 1" unfolding in0_def by (rule unat_succ_u32)
  with l3 have small: "in0 < 0x80000000" by (simp add: word_less_nat_alt)
  have ne: "l \<noteq> 4" "l \<noteq> 0xd" using l3 by (auto simp add: unat_eq_numeral_iff)
  have "in0 > base_max"
  proof (rule ccontr)
    assume "\<not> in0 > base_max"
    with small nx input ne show False
      by (simp add: next_input_def Let_def in0_def top_bit_clear_iff split: if_splits)
  qed
  with L l3 show ?thesis by (simp add: word_less_nat_alt)
qed

lemma leaf4_visits_Cons:
  "leaf4_visits (input # vis) =
     (if fst input = 4 then input # leaf4_visits vis else leaf4_visits vis)"
  by (simp add: leaf4_visits_def)

lemma apply_policy_loop_amd_hvm:
  assumes amd: "vendor info = VENDOR_AMD" and h: "hvm info"
    and bm: "base_max \<le> 0xd" and em: "ext_max \<le> 0x8000001c"
  shows "fst input < 0x80000000 \<or> fst input \<le> ext_max \<Longrightarrow>
     iterations_left input < fuel \<Longrightarrow>
     \<exists>rc vis calls'.
        apply_policy_loop fuel fv e info domid base_max ext_max input visited calls
          = Some (rc, visited @ vis, calls') \<and>
        (fst input = 4 \<longrightarrow> leaf4_visits vis = [input]) \<and>
        (4 < fst input \<longrightarrow> leaf4_visits vis = []) \<and>
        (fst input < 4 \<longrightarrow>
           (leaf4_visits vis = [] \<or> leaf4_visits vis = [(4, 0)]) \<and>
           (rc = None \<and> 4 \<le> base_max \<longrightarrow> leaf4_visits vis = [(4, 0)]))"
proof (induction fuel arbitrary: input visited calls)
  case 0
  then show ?case by simp
next
  case (Suc fuel)
  define regs where
    "regs = xc_cpuid_policy fv (hw_cpuid e) info input (cpuid (hw_cpuid e) input)"
  define nonzero where
    "nonzero \<longleftrightarrow> eax regs \<noteq> 0 \<or> ebx regs \<noteq> 0 \<or> ecx regs \<noteq> 0 \<or> edx regs \<noteq> 0"
  define rc0 where "rc0 = (if nonzero then xc_cpuid_do_domctl e domid input regs else 0)"
  define calls1 where "calls1 = (if nonzero then calls @ [(input, regs)] else calls)"
  have unfold: "apply_policy_loop (Suc fuel) fv e info domid base_max ext_max input visited calls =
      (if rc0 \<noteq> 0 then Some (Some (ExternalFailure rc0), visited @ [input], calls1)
       else (case next_input base_max ext_max input regs of
               None \<Rightarrow> Some (None, visited @ [input], calls1)
             | Some input' \<Rightarrow>
                 apply_policy_loop fuel fv e info domid base_max ext_max input'
                   (visited @ [input]) calls1))"
    unfolding rc0_def calls1_def nonzero_def regs_def
    by (simp only: apply_policy_loop.simps Let_def)
  have l4: "fst input = 4 \<longrightarrow> eax regs AND 0x1f = 0"
  proof
    assume "fst input = 4"
    then have "input = (4, snd input)" by (cases input) simp
    then have "eax regs = 0"
      unfolding regs_def using amd_hvm_leaf4_eax [OF amd h] by metis
    then show "eax regs AND 0x1f = 0" by simp
  qed
  have single: "(fst input = 4 \<longrightarrow> leaf4_visits [input] = [input]) \<and>
        (4 < fst input \<longrightarrow> leaf4_visits [input] = []) \<and>
        (fst input < 4 \<longrightarrow> leaf4_visits [input] = [])"
    by (auto simp add: leaf4_visits_def)
  show ?case
  proof (cases "rc0 \<noteq> 0")
    case True
    then have "apply_policy_loop (Suc fuel) fv e info domid base_max ext_max input visited calls
                 = Some (Some (ExternalFailure rc0), visited @ [input], calls1)"
      unfolding unfold by simp
    with single show ?thesis by auto
  next
    case rc: False
    show ?thesis
    proof (cases "next_input base_max ext_max input regs")
      case None
      with rc have res: "apply_policy_loop (Suc fuel) fv e info domid base_max ext_max input
                      visited calls = Some (None, visited @ [input], calls1)"
        unfolding unfold by simp
      have "fst input < 4 \<longrightarrow> \<not> 4 \<le> base_max"
        using next_input_None_small [OF em _ None] by auto
      with res single show ?thesis by auto
    next
      case (Some input')
      note st = next_input_step [OF bm em Suc.prems(1) l4 Some]
      have inv': "fst input' < 0x80000000 \<or> fst input' \<le> ext_max" using st by blast
      have dec: "iterations_left input' < fuel" using st Suc.prems(2) by linarith
      from Suc.IH [OF inv' dec, of "visited @ [input]" calls1]
      obtain rc vis calls' where
        run: "apply_policy_loop fuel fv e info domid base_max ext_max input'
                (visited @ [input]) calls1 = Some (rc, (visited @ [input]) @ vis, calls')"
        and q4: "fst input' = 4 \<longrightarrow> leaf4_visits vis = [input']"
        and qhi: "4 < fst input' \<longrightarrow> leaf4_visits vis = []"
        and qlo: "fst input' < 4 \<longrightarrow>
           (leaf4_visits vis = [] \<or> leaf4_visits vis = [(4, 0)]) \<and>
           (rc = None \<and> 4 \<le> base_max \<longrightarrow> leaf4_visits vis = [(4, 0)])"
        by blast
      have res: "apply_policy_loop (Suc fuel) fv e info domid base_max ext_max input visited calls
                   = Some (rc, visited @ (input # vis), calls')"
        unfolding unfold using rc Some run by simp
      have a: "fst input = 4 \<longrightarrow> leaf4_visits (input # vis) = [input]"
        using st qhi by (simp add: leaf4_visits_Cons)
      have b: "4 < fst input \<longrightarrow> leaf4_visits (input # vis) = []"
      proof
        assume hi: "4 < fst input"
        then have "4 < fst input'" using st by simp
        with qhi hi show "leaf4_visits (input # vis) = []" by (simp add: leaf4_visits_Cons)
      qed
      have c: "fst input < 4 \<longrightarrow>
           (leaf4_visits (input # vis) = [] \<or> leaf4_visits (input # vis) = [(4, 0)]) \<and>
           (rc = None \<and> 4 \<le> base_max \<longrightarrow> leaf4_visits (input # vis) = [(4, 0)])"
      proof
        assume lo: "fst input < 4"
        then have ne: "fst input \<noteq> 4" by auto
        from st lo have "input' = (4, 0) \<or> fst input' < 4 \<or> (4 < fst input' \<and> base_max < 4)"
          by blast
        then show "(leaf4_visits (input # vis) = [] \<or> leaf4_visits (input # vis) = [(4, 0)]) \<and>
           (rc = None \<and> 4 \<le> base_max \<longrightarrow> leaf4_visits (input # vis) = [(4, 0)])"
        proof (elim disjE)
          assume "input' = (4, 0)"
          with q4 ne show ?thesis by (simp add: leaf4_visits_Cons)
        next
          assume "fst input' < 4"
          with qlo ne show ?thesis by (simp add: leaf4_visits_Cons)
        next
          assume "4 < fst input' \<and> base_max < 4"
          with qhi ne show ?thesis by (auto simp add: leaf4_visits_Cons)
        qed
      qed
      from res a b c show ?thesis by blast
    qed
  qed
qed

lemma base_max_of_le: "base_max_of e \<le> 0xd"
  by (simp add: base_max_of_def Let_def DEF_MAX_BASE_def)

lemma ext_max_of_amd_le: "vendor info = VENDOR_AMD \<Longrightarrow> ext_max_of e info \<le> 0x8000001c"
  by (simp add: ext_max_of_def Let_def DEF_MAX_AMDEXT_def)

lemma iterations_left_start: "iterations_left (0, XEN_CPUID_INPUT_UNUSED) = 108"
  by (simp add: iterations_left_def)

lemma sample_amd_env_resolves:
  "get_cpuid_domain_info 2 (sample_env sample_amd_hw h m) d None 0
     = Inr (sample_info VENDOR_AMD h m)"
proof -
  have r: "replicate 2 (0::u32) = [0, 0]" by (simp add: numeral_2_eq_2)
  show ?thesis
    by (simp add: get_cpuid_domain_info_def sample_env_def sample_info_def sample_amd_hw_def
        cpuid_def Let_def r)
qed

text \<open>
  Claim C9, as amended. For every AMD-vendor HVM domain context the traversal returns
  (109 iterations always suffice) and visits at most one sub-leaf of leaf 4, sub-leaf 0:
  the vendor rule clears eax, so the low five bits of the policy-filtered eax never ask
  for another level. It visits exactly that one sub-leaf whenever the traversal runs to
  completion on a machine whose highest basic leaf is at least 4. The vendor rule is part
  of the HVM table only.
\<close>

theorem amd_hvm_leaf4_single_visit:
  assumes "get_cpuid_domain_info n e domid fset nr_fset = Inr info"
    and "vendor info = VENDOR_AMD" and "hvm info" and "109 \<le> fuel"
  shows "\<exists>rc visited calls.
           xc_cpuid_apply_policy fuel fv n e domid fset nr_fset = Some (rc, visited, calls) \<and>
           (leaf4_visits visited = [] \<or> leaf4_visits visited = [(4, 0)]) \<and>
           (rc = None \<and> 4 \<le> base_max_of e \<longrightarrow> leaf4_visits visited = [(4, 0)])"
proof -
  have inv: "fst (0::u32, XEN_CPUID_INPUT_UNUSED) < 0x80000000 \<or>
             fst (0::u32, XEN_CPUID_INPUT_UNUSED) \<le> ext_max_of e info" by simp
  have fuel: "iterations_left (0, XEN_CPUID_INPUT_UNUSED) < fuel"
    using assms(4) by (simp add: iterations_left_start)
  from apply_policy_loop_amd_hvm [OF assms(2,3) base_max_of_le [of e]
      ext_max_of_amd_le [OF assms(2), of e]
      inv fuel, where fv = fv and e = e and domid = domid and visited = "[]" and calls = "[]"]
  obtain rc vis calls' where
    run: "apply_policy_loop fuel fv e info domid (base_max_of e) (ext_max_of e info)
            (0, XEN_CPUID_INPUT_UNUSED) [] [] = Some (rc, vis, calls')"
    and lo: "(leaf4_visits vis = [] \<or> leaf4_visits vis = [(4, 0)]) \<and>
             (rc = None \<and> 4 \<le> base_max_of e \<longrightarrow> leaf4_visits vis = [(4, 0)])"
    by auto
  have "xc_cpuid_apply_policy fuel fv n e domid fset nr_fset = Some (rc, vis, calls')"
    using assms(1) run by (simp add: xc_cpuid_apply_policy_def)
  with lo show ?thesis by blast
qed

theorem amd_hvm_leaf4_single_visit_witness:
  "get_cpuid_domain_info 2 (sample_env sample_amd_hw True 7) 0 None 0
     = Inr (sample_info VENDOR_AMD True 7) \<and>
   vendor (sample_info VENDOR_AMD True 7) = VENDOR_AMD \<and>
   hvm (sample_info VENDOR_AMD True 7) \<and>
   base_max_of (sample_env sample_amd_hw True 7) = 4 \<and>
   (\<exists>visited calls.
      xc_cpuid_apply_policy 109 sample_fv 2 (sample_env sample_amd_hw True 7) 0 None 0
        = Some (None, visited, calls) \<and>
      leaf4_visits visited = [(4, 0)])"
proof -
  let ?e = "sample_env sample_amd_hw True 7"
  have h1: "get_cpuid_domain_info 2 ?e 0 None 0 = Inr (sample_info VENDOR_AMD True 7)"
    by (rule sample_amd_env_resolves)
  have h2: "vendor (sample_info VENDOR_AMD True 7) = VENDOR_AMD"
    and h3: "hvm (sample_info VENDOR_AMD True 7)"
    by (simp_all add: sample_info_def)
  have h4: "(109::nat) \<le> 109" by simp
  have bm: "base_max_of ?e = 4"
    by (simp add: base_max_of_def sample_env_def sample_amd_hw_def cpuid_def Let_def
        DEF_MAX_BASE_def)
  have ok: "map_option fst (xc_cpuid_apply_policy 109 sample_fv 2 ?e 0 None 0) = Some None"
    by code_simp
  from amd_hvm_leaf4_single_visit [OF h1 h2 h3 h4, of sample_fv]
  obtain rc visited calls where
    run: "xc_cpuid_apply_policy 109 sample_fv 2 ?e 0 None 0 = Some (rc, visited, calls)"
    and one: "rc = None \<and> 4 \<le> base_max_of ?e \<longrightarrow> leaf4_visits visited = [(4, 0)]"
    by blast
  from ok run have "rc = None" by simp
  with one bm have "leaf4_visits visited = [(4, 0)]" by simp
  with run \<open>rc = None\<close> h1 h2 h3 bm show ?thesis by blast
qed

text \<open>
  Claim C9 as the specification words it fails for a PV domain on an AMD machine: no
  vendor rule runs, leaf 4 comes back as raw hardware, and with a cache level at sub-leaf
  0 the traversal, which returns 0, goes on to sub-leaf 1. The inputs visited are leaves
  0 to 3 with the unused sub-input, then leaf 4 at sub-leaves 0 and 1.
\<close>

theorem amd_pv_leaf4_counterexample:
  "get_cpuid_domain_info 2 (sample_env sample_amd_hw False 7) 0 None 0
     = Inr (sample_info VENDOR_AMD False 7) \<and>
   map_option fst
     (xc_cpuid_apply_policy 109 sample_fv 2 (sample_env sample_amd_hw False 7) 0 None 0)
     = Some None \<and>
   map_option (fst \<circ> snd)
     (xc_cpuid_apply_policy 109 sample_fv 2 (sample_env sample_amd_hw False 7) 0 None 0)
     = Some [(0, 0xFFFFFFFF), (1, 0xFFFFFFFF), (2, 0xFFFFFFFF), (3, 0xFFFFFFFF), (4, 0), (4, 1)] \<and>
   leaf4_visits
     [(0, 0xFFFFFFFF), (1, 0xFFFFFFFF), (2, 0xFFFFFFFF), (3, 0xFFFFFFFF), (4, 0), (4, 1)]
     = [(4, 0), (4, 1)]"
proof -
  have a: "get_cpuid_domain_info 2 (sample_env sample_amd_hw False 7) 0 None 0
     = Inr (sample_info VENDOR_AMD False 7)"
    by (rule sample_amd_env_resolves)
  have b: "map_option fst
     (xc_cpuid_apply_policy 109 sample_fv 2 (sample_env sample_amd_hw False 7) 0 None 0)
     = Some None"
    by code_simp
  have c: "map_option (fst \<circ> snd)
     (xc_cpuid_apply_policy 109 sample_fv 2 (sample_env sample_amd_hw False 7) 0 None 0)
     = Some [(0, 0xFFFFFFFF), (1, 0xFFFFFFFF), (2, 0xFFFFFFFF), (3, 0xFFFFFFFF), (4, 0), (4, 1)]"
    by code_simp
  have d: "leaf4_visits
     [(0, 0xFFFFFFFF), (1, 0xFFFFFFFF), (2, 0xFFFFFFFF), (3, 0xFFFFFFFF), (4, 0), (4, 1)]
     = [(4::u32, 0::u32), (4, 1)]"
    by (simp add: leaf4_visits_def)
  from a b c d show ?thesis by blast
qed

end
